theory Spec2Isabelle
  imports Main
begin

section \<open>Configuration (config/index.js)\<close>

text \<open>The constants of the exported \<open>config\<close> object that the modelled code reads.\<close>

definition config_rateLimit_windowMs :: int where
  "config_rateLimit_windowMs = 15 * 60 * 1000"

definition config_rateLimit_max :: nat where
  "config_rateLimit_max = 100"

text \<open>
  \<open>violationThreshold: parseInt(process.env.VIOLATION_THRESHOLD || '1', 10)\<close>: the variable
  may be unset (\<open>None\<close>) or empty, and \<open>parseInt\<close> reads an optional sign and the leading
  decimal digits after any leading blanks; without a digit the result is NaN (\<open>None\<close>).
\<close>

definition is_digit :: "char \<Rightarrow> bool" where
  "is_digit c \<longleftrightarrow> c \<in> set ''0123456789''"

definition digit_value :: "char \<Rightarrow> int" where
  "digit_value c = int (of_char c) - 48"

definition parse_digits :: "string \<Rightarrow> int option" where
  "parse_digits s =
     (let ds = takeWhile is_digit s
      in if ds = [] then None else Some (foldl (\<lambda>a c. 10 * a + digit_value c) 0 ds))"

definition parseInt10 :: "string \<Rightarrow> int option" where
  "parseInt10 s =
     (case dropWhile (\<lambda>c. c = CHR '' '') s of
        [] \<Rightarrow> None
      | c # cs \<Rightarrow>
          if c = CHR ''-'' then map_option uminus (parse_digits cs)
          else if c = CHR ''+'' then parse_digits cs
          else parse_digits (c # cs))"

definition config_violationThreshold :: "string option \<Rightarrow> int option" where
  "config_violationThreshold env =
     parseInt10 (case env of None \<Rightarrow> ''1'' | Some v \<Rightarrow> if v = [] then ''1'' else v)"

text \<open>\<open>config.session\<close>: 30 seconds per question, 3 violations before removal.\<close>

definition config_session_questionDuration :: int where
  "config_session_questionDuration = 30 * 1000"

definition config_session_violationThreshold :: nat where
  "config_session_violationThreshold = 3"

section \<open>Rate limiting middleware (middleware/index.js, \<open>rateLimit\<close>)\<close>

text \<open>
  \<open>rateLimit(options)\<close> reads \<open>options.windowMs || config.rateLimit.windowMs\<close> and
  \<open>options.max || config.rateLimit.max\<close>: a missing or zero option falls back to the
  configured value. Timestamps are the integer milliseconds of \<open>Date.now()\<close>; the limit
  is a count.
\<close>

record rl_options =
  opt_windowMs :: "int option"
  opt_max :: "nat option"

definition or_default :: "'a::zero option \<Rightarrow> 'a \<Rightarrow> 'a" where
  "or_default v d = (case v of None \<Rightarrow> d | Some x \<Rightarrow> if x = 0 then d else x)"

text \<open>
  The two ways the returned middleware answers: \<open>res.status(429).json({error, retryAfter})\<close>,
  or \<open>next()\<close> after setting the headers X-RateLimit-Limit, X-RateLimit-Remaining and
  X-RateLimit-Reset (the latter kept as the millisecond instant \<open>now + windowMs\<close>).
\<close>

datatype rl_response =
  TooManyRequests int
| Next nat nat int

fun is_Next :: "rl_response \<Rightarrow> bool" where
  "is_Next (Next _ _ _) = True"
| "is_Next (TooManyRequests _) = False"

text \<open>The closure variable \<open>requests = new Map()\<close>: key to the list of recorded timestamps.\<close>

type_synonym 'k requests = "'k \<rightharpoonup> int list"

text \<open>\<open>Math.ceil(windowMs / 1000)\<close> on an integer number of milliseconds.\<close>

definition ceil_div_1000 :: "int \<Rightarrow> int" where
  "ceil_div_1000 ms = - ((- ms) div 1000)"

definition rl_handler ::
  "int \<Rightarrow> nat \<Rightarrow> 'k \<Rightarrow> int \<Rightarrow> 'k requests \<Rightarrow> rl_response \<times> 'k requests" where
  "rl_handler windowMs mx key now requests =
     (let windowStart = now - windowMs;
          requests1 = (case requests key of
                         None \<Rightarrow> requests
                       | Some ts \<Rightarrow> requests(key \<mapsto> filter (\<lambda>time. time > windowStart) ts));
          userRequests = (case requests1 key of None \<Rightarrow> [] | Some ts \<Rightarrow> ts)
      in if length userRequests \<ge> mx
         then (TooManyRequests (ceil_div_1000 windowMs), requests1)
         else (let userRequests' = userRequests @ [now]
               in (Next mx (mx - length userRequests') (now + windowMs),
                   requests1(key \<mapsto> userRequests'))))"

definition eff_windowMs :: "rl_options \<Rightarrow> int" where
  "eff_windowMs options = or_default (opt_windowMs options) config_rateLimit_windowMs"

definition eff_max :: "rl_options \<Rightarrow> nat" where
  "eff_max options = or_default (opt_max options) config_rateLimit_max"

definition rateLimit ::
  "rl_options \<Rightarrow> 'k \<Rightarrow> int \<Rightarrow> 'k requests \<Rightarrow> rl_response \<times> 'k requests" where
  "rateLimit options = rl_handler (eff_windowMs options) (eff_max options)"

text \<open>
  The server calls the middleware once per incoming request, in arrival order; a request
  is its client key (\<open>req.ip\<close>) and the value \<open>Date.now()\<close> had when it was handled.
\<close>

fun serve ::
  "('k \<Rightarrow> int \<Rightarrow> 'k requests \<Rightarrow> rl_response \<times> 'k requests) \<Rightarrow> 'k requests \<Rightarrow>
   ('k \<times> int) list \<Rightarrow> rl_response list \<times> 'k requests" where
  "serve h st [] = ([], st)"
| "serve h st ((key, now) # rest) =
     (case h key now st of (r, st') \<Rightarrow>
        (case serve h st' rest of (rs, st'') \<Rightarrow> (r # rs, st'')))"

text \<open>The timestamps of the requests of one key that were let through.\<close>

fun accepted :: "'k \<Rightarrow> ('k \<times> int) list \<Rightarrow> rl_response list \<Rightarrow> int list" where
  "accepted k ((key, now) # reqs) (r # rs) =
     (if key = k \<and> is_Next r then now # accepted k reqs rs else accepted k reqs rs)"
| "accepted k _ _ = []"

definition in_window :: "int \<Rightarrow> int \<Rightarrow> int \<Rightarrow> bool" where
  "in_window w t a \<longleftrightarrow> t - w < a \<and> a \<le> t"

definition stored :: "'k requests \<Rightarrow> 'k \<Rightarrow> int list" where
  "stored st k = (case st k of None \<Rightarrow> [] | Some ts \<Rightarrow> ts)"

text \<open>
  The invariant of the request table against the log \<open>A\<close> of let-through timestamps, at a
  clock reading \<open>T\<close>: the table still holds every logged timestamp that a window ending at
  \<open>T\<close> or later can see, no logged timestamp is later than \<open>T\<close>, and no window holds more
  than \<open>mx\<close> logged timestamps.
\<close>

definition rl_inv :: "int \<Rightarrow> nat \<Rightarrow> int \<Rightarrow> 'k requests \<Rightarrow> ('k \<Rightarrow> int list) \<Rightarrow> bool" where
  "rl_inv w mx T st A \<longleftrightarrow>
     (\<forall>k. (\<forall>c\<ge>T - w. filter (\<lambda>a. a > c) (stored st k) = filter (\<lambda>a. a > c) (A k))
        \<and> (\<forall>a\<in>set (A k). a \<le> T)
        \<and> (\<forall>t. length (filter (in_window w t) (A k)) \<le> mx))"

section \<open>Stored rows and the database service (services/database.js)\<close>

text \<open>
  A value of a column or of an object property; a row is the object the driver returns for
  it, a list of column names with their values. Reading a property that the object does not
  have gives \<open>undefined\<close>, which is \<open>None\<close> here; on these values JavaScript's \<open>===\<close> is
  equality. A thrown \<open>new Error(message)\<close> is the value \<open>Error message\<close>.
\<close>

datatype jsval = VNull | VInt int | VStr string | VBool bool

datatype error = Error string

type_synonym row = "(string \<times> jsval) list"

definition field_of :: "row \<Rightarrow> string \<Rightarrow> jsval option" where
  "field_of r k = map_of r k"

text \<open>The value SQL sees in a column, and the value bound to a \<open>?\<close> placeholder.\<close>

definition col :: "row \<Rightarrow> string \<Rightarrow> jsval" where
  "col r k = (case map_of r k of None \<Rightarrow> VNull | Some v \<Rightarrow> v)"

definition sql_param :: "jsval option \<Rightarrow> jsval" where
  "sql_param v = (case v of None \<Rightarrow> VNull | Some x \<Rightarrow> x)"

text \<open>SQL comparison: \<open>a = b\<close> and \<open>a != b\<close> are true only between non-NULL values.\<close>

definition sql_eq :: "jsval \<Rightarrow> jsval \<Rightarrow> bool" where
  "sql_eq a b \<longleftrightarrow> a \<noteq> VNull \<and> b \<noteq> VNull \<and> a = b"

definition sql_ne :: "jsval \<Rightarrow> jsval \<Rightarrow> bool" where
  "sql_ne a b \<longleftrightarrow> a \<noteq> VNull \<and> b \<noteq> VNull \<and> a \<noteq> b"

text \<open>
  The tables the modelled queries read. The library table is optional: the dashboard
  handler expects that querying it may fail (it catches the error and logs
  "Could not load bibliotheek_vragenlijsten").
\<close>

record database =
  docenten :: "row list"
  klassen :: "row list"
  vragenlijsten :: "row list"
  sessies :: "row list"
  bibliotheek_vragenlijsten :: "row list option"

text \<open>\<open>db.get("SELECT * FROM t WHERE id = ?", id)\<close>: the first matching row, or undefined.\<close>

definition get_by_id :: "row list \<Rightarrow> jsval \<Rightarrow> row option" where
  "get_by_id tbl i = find (\<lambda>r. sql_eq (col r ''id'') i) tbl"

definition getUserById :: "database \<Rightarrow> jsval \<Rightarrow> row option" where
  "getUserById db i = get_by_id (docenten db) i"

definition getUserByEmail :: "database \<Rightarrow> jsval \<Rightarrow> row option" where
  "getUserByEmail db email = find (\<lambda>r. sql_eq (col r ''email'') email) (docenten db)"

definition getKlasById :: "database \<Rightarrow> jsval \<Rightarrow> row option" where
  "getKlasById db i = get_by_id (klassen db) i"

text \<open>The column \<open>t.naam\<close> that a \<open>LEFT JOIN t ON fk = t.id\<close> contributes: NULL without a match.\<close>

definition joined_naam :: "row list \<Rightarrow> jsval \<Rightarrow> jsval" where
  "joined_naam tbl fk = (case get_by_id tbl fk of None \<Rightarrow> VNull | Some r \<Rightarrow> col r ''naam'')"

definition getVragenlijstById :: "database \<Rightarrow> jsval \<Rightarrow> row option" where
  "getVragenlijstById db i =
     map_option (\<lambda>vl. vl @ [(''klas_naam'', joined_naam (klassen db) (col vl ''klas_id''))])
       (get_by_id (vragenlijsten db) i)"

definition getSessieById :: "database \<Rightarrow> jsval \<Rightarrow> row option" where
  "getSessieById db i =
     map_option (\<lambda>s. s @ [(''vragenlijst_naam'', joined_naam (vragenlijsten db) (col s ''vragenlijst_id'')),
                          (''klas_naam'', joined_naam (klassen db) (col s ''klas_id'')),
                          (''docent_naam'', joined_naam (docenten db) (col s ''docent_id''))])
       (get_by_id (sessies db) i)"

text \<open>
  \<open>createUser\<close>: the INSERT names six columns; the new row gets the next rowid, which the
  function returns as \<open>result.lastID\<close>. \<open>created\<close> stands for \<open>datetime('now')\<close>.
\<close>

definition id_int :: "row \<Rightarrow> int" where
  "id_int r = (case col r ''id'' of VInt i \<Rightarrow> i | _ \<Rightarrow> 0)"

definition next_id :: "row list \<Rightarrow> int" where
  "next_id tbl = fold (\<lambda>r m. max m (id_int r)) tbl 0 + 1"

record new_user =
  nu_naam :: string
  nu_email :: string
  nu_password :: string
  nu_role :: "string option"

definition createUser :: "string \<Rightarrow> new_user \<Rightarrow> database \<Rightarrow> int \<times> database" where
  "createUser created userData db =
     (let lastID = next_id (docenten db);
          role = (case nu_role userData of None \<Rightarrow> ''teacher'' | Some r \<Rightarrow> r);
          r = [(''id'', VInt lastID), (''naam'', VStr (nu_naam userData)),
               (''email'', VStr (nu_email userData)), (''password'', VStr (nu_password userData)),
               (''role'', VStr role), (''avatar'', VNull), (''created_at'', VStr created)]
      in (lastID, db\<lparr>docenten := docenten db @ [r]\<rparr>))"

text \<open>
  \<open>createSessie\<close>: the INSERT names the question list, the class and the teacher, and the two
  timestamps; no other column of the session row is set.
\<close>

record new_sessie =
  ns_vragenlijst_id :: jsval
  ns_klas_id :: jsval
  ns_docent_id :: jsval

definition createSessie :: "string \<Rightarrow> new_sessie \<Rightarrow> database \<Rightarrow> int \<times> database" where
  "createSessie created sessieData db =
     (let lastID = next_id (sessies db);
          r = [(''id'', VInt lastID), (''vragenlijst_id'', ns_vragenlijst_id sessieData),
               (''klas_id'', ns_klas_id sessieData), (''docent_id'', ns_docent_id sessieData),
               (''started_at'', VStr created), (''created_at'', VStr created)]
      in (lastID, db\<lparr>sessies := sessies db @ [r]\<rparr>))"

section \<open>Permission checks (services/auth.js)\<close>

text \<open>The checks only run SELECT queries: they read the database and return a boolean.\<close>

definition checkKlasPermission :: "database \<Rightarrow> row \<Rightarrow> jsval \<Rightarrow> string \<Rightarrow> bool" where
  "checkKlasPermission db user klasId action =
     (case getKlasById db klasId of
        None \<Rightarrow> False
      | Some klas \<Rightarrow> field_of klas ''docent_id'' = field_of user ''id'')"

definition checkVragenlijstPermission :: "database \<Rightarrow> row \<Rightarrow> jsval \<Rightarrow> string \<Rightarrow> bool" where
  "checkVragenlijstPermission db user vragenlijstId action =
     (case getVragenlijstById db vragenlijstId of
        None \<Rightarrow> False
      | Some vragenlijst \<Rightarrow>
          checkKlasPermission db user (sql_param (field_of vragenlijst ''klas_id'')) action)"

definition checkSessiePermission :: "database \<Rightarrow> row \<Rightarrow> jsval \<Rightarrow> string \<Rightarrow> bool" where
  "checkSessiePermission db user sessieId action =
     (case getSessieById db sessieId of
        None \<Rightarrow> False
      | Some sessie \<Rightarrow> field_of sessie ''docent_id'' = field_of user ''id'')"

definition checkPermission :: "database \<Rightarrow> jsval \<Rightarrow> string \<Rightarrow> jsval \<Rightarrow> string \<Rightarrow> bool" where
  "checkPermission db userId resourceType resourceId action =
     (case getUserById db userId of
        None \<Rightarrow> False
      | Some user \<Rightarrow>
          if field_of user ''role'' = Some (VStr ''admin'') then True
          else if resourceType = ''klas'' then checkKlasPermission db user resourceId action
          else if resourceType = ''vragenlijst'' then
            checkVragenlijstPermission db user resourceId action
          else if resourceType = ''sessie'' then checkSessiePermission db user resourceId action
          else False)"

text \<open>A small database for examples: an administrator, two teachers, one session.\<close>

definition example_db :: database where
  "example_db =
     \<lparr>docenten =
        [[(''id'', VInt 1), (''naam'', VStr ''Ada''), (''email'', VStr ''ada@school.nl''),
          (''password'', VStr ''hash:geheim1''), (''role'', VStr ''admin'')],
         [(''id'', VInt 2), (''naam'', VStr ''Bob''), (''email'', VStr ''bob@school.nl''),
          (''password'', VStr ''hash:geheim2''), (''role'', VStr ''teacher'')],
         [(''id'', VInt 3), (''naam'', VStr ''Cas''), (''email'', VStr ''cas@school.nl''),
          (''password'', VStr ''hash:geheim3''), (''role'', VStr ''teacher'')]],
      klassen = [[(''id'', VInt 5), (''naam'', VStr ''4A''), (''docent_id'', VInt 2)]],
      vragenlijsten = [[(''id'', VInt 6), (''naam'', VStr ''Woordjes''), (''klas_id'', VInt 5)]],
      sessies = [[(''id'', VInt 7), (''vragenlijst_id'', VInt 6), (''klas_id'', VInt 5),
                  (''docent_id'', VInt 2)]],
      bibliotheek_vragenlijsten =
        Some [[(''id'', VInt 1), (''titel'', VStr ''Open''), (''licentie_type'', VStr ''gratis'')],
              [(''id'', VInt 2), (''titel'', VStr ''Geheim''), (''licentie_type'', VStr ''verborgen'')],
              [(''id'', VInt 3), (''titel'', VStr ''Leeg''), (''licentie_type'', VNull)]]\<rparr>"

section \<open>Tokens (middleware/auth.js)\<close>

text \<open>
  The jsonwebtoken and bcrypt packages are not part of the repository. What they compute
  enters as the fields of \<open>libs\<close>: \<open>signature_ok secret header payload signature\<close> is the token
  library's verdict on a signature under a key (it chooses the algorithms it accepts for the
  key and checks the signature with the one the header names); \<open>sign_with secret header
  payload\<close> is the signature it issues, or the error it throws when it cannot sign with the
  key; \<open>bcrypt_hash\<close> and \<open>bcrypt_compare\<close> are bcrypt's functions.

  A credential string is modelled by what the token library decodes it into: either it does
  not decode, or it is a header, a payload that is a JSON object of claims, and a signature.
\<close>

record libs =
  signature_ok :: "string \<Rightarrow> row \<Rightarrow> row \<Rightarrow> string \<Rightarrow> bool"
  sign_with :: "string \<Rightarrow> row \<Rightarrow> row \<Rightarrow> error + string"
  bcrypt_hash :: "string \<Rightarrow> nat \<Rightarrow> string"
  bcrypt_compare :: "string \<Rightarrow> string \<Rightarrow> bool"

datatype credential = Malformed string | Jwt row row string

text \<open>
  The time checks of \<open>jwt.verify\<close>, against the clock in whole seconds. A token with an \<open>nbf\<close>
  claim is refused before that time, one with an \<open>exp\<close> claim from that time on, and a claim
  that is present but not a number is refused.
\<close>

definition active :: "int \<Rightarrow> row \<Rightarrow> bool" where
  "active now p =
     (case field_of p ''nbf'' of
        None \<Rightarrow> True
      | Some (VInt n) \<Rightarrow> n \<le> now div 1000
      | Some _ \<Rightarrow> False)"

definition unexpired :: "int \<Rightarrow> row \<Rightarrow> bool" where
  "unexpired now p =
     (case field_of p ''exp'' of
        None \<Rightarrow> True
      | Some (VInt e) \<Rightarrow> now div 1000 < e
      | Some _ \<Rightarrow> False)"

definition signed_with :: "libs \<Rightarrow> string \<Rightarrow> credential \<Rightarrow> bool" where
  "signed_with L secret c =
     (case c of Malformed _ \<Rightarrow> False | Jwt header p s \<Rightarrow> signature_ok L secret header p s)"

text \<open>
  \<open>jwt.verify(token, secret)\<close> called without options and without a callback: it throws
  unless the token decodes, its signature is valid under the secret, its \<open>nbf\<close> time has come
  and its \<open>exp\<close> time has not; then it returns the payload. No audience or issuer is asked
  for, so those claims are not looked at.
\<close>

definition jwt_verify :: "libs \<Rightarrow> int \<Rightarrow> credential \<Rightarrow> string \<Rightarrow> error + row" where
  "jwt_verify L now token secret =
     (case token of
        Malformed _ \<Rightarrow> Inl (Error ''jwt malformed'')
      | Jwt header p s \<Rightarrow>
          if \<not> signature_ok L secret header p s then Inl (Error ''invalid signature'')
          else if \<not> active now p then Inl (Error ''jwt not active'')
          else if \<not> unexpired now p then Inl (Error ''jwt expired'')
          else Inr p)"

text \<open>Assignment to an object property: an existing property keeps its place.\<close>

definition set_prop :: "string \<Rightarrow> jsval \<Rightarrow> row \<Rightarrow> row" where
  "set_prop k v r =
     (if k \<in> fst ` set r then map (\<lambda>(k', v'). if k' = k then (k', v) else (k', v')) r
      else r @ [(k, v)])"

definition number_or_absent :: "row \<Rightarrow> string \<Rightarrow> bool" where
  "number_or_absent p k = (case field_of p k of None \<Rightarrow> True | Some (VInt n) \<Rightarrow> True | Some _ \<Rightarrow> False)"

text \<open>
  \<open>jwt.sign(payload, secret, {expiresIn: '24h', issuer: 'overhoorer', audience:
  'overhoorer-users'})\<close> for an object payload, called without a callback. It throws when a
  claim iat, exp or nbf of the payload is not a number, and when the payload already has
  the claim that an option is to set (exp, aud, iss). Otherwise it sets iat to the payload's
  own non-zero iat or else to the clock in seconds, exp to 24 hours after iat, aud and iss
  to the options, and signs the result under the header for HS256.
\<close>

definition jwt_sign :: "libs \<Rightarrow> int \<Rightarrow> row \<Rightarrow> string \<Rightarrow> error + credential" where
  "jwt_sign L now payload secret =
     (if \<not> (number_or_absent payload ''iat'' \<and> number_or_absent payload ''exp''
             \<and> number_or_absent payload ''nbf'')
      then Inl (Error ''claim should be a number of seconds'')
      else if field_of payload ''exp'' \<noteq> None
      then Inl (Error ''Bad options.expiresIn option the payload already has an exp property.'')
      else if field_of payload ''aud'' \<noteq> None
      then Inl (Error ''Bad options.audience option. The payload already has an aud property.'')
      else if field_of payload ''iss'' \<noteq> None
      then Inl (Error ''Bad options.issuer option. The payload already has an iss property.'')
      else (let timestamp = (case field_of payload ''iat'' of
                               Some (VInt i) \<Rightarrow> if i = 0 then now div 1000 else i
                             | _ \<Rightarrow> now div 1000);
                p = set_prop ''iss'' (VStr ''overhoorer'')
                      (set_prop ''aud'' (VStr ''overhoorer-users'')
                         (set_prop ''exp'' (VInt (timestamp + 24 * 60 * 60))
                            (set_prop ''iat'' (VInt timestamp) payload)));
                header = [(''alg'', VStr ''HS256''), (''typ'', VStr ''JWT'')]
            in case sign_with L secret header p of
                 Inl e \<Rightarrow> Inl e
               | Inr s \<Rightarrow> Inr (Jwt header p s)))"

text \<open>
  \<open>generateToken\<close> and \<open>verifyToken\<close>; \<open>secret\<close> is \<open>config.secret\<close>. \<open>generateToken\<close> returns
  the token or throws what \<open>jwt.sign\<close> throws.
\<close>

definition generateToken :: "libs \<Rightarrow> string \<Rightarrow> int \<Rightarrow> row \<Rightarrow> error + credential" where
  "generateToken L secret now payload = jwt_sign L now payload secret"

text \<open>
  \<open>verifyToken\<close> returns what \<open>jwt.verify\<close> returns and turns every exception into the
  value \<open>null\<close>. The result type keeps the two ways a JavaScript call can end apart:
  \<open>Inl\<close> is a thrown exception, \<open>Inr None\<close> the returned \<open>null\<close>.
\<close>

definition verifyToken :: "libs \<Rightarrow> string \<Rightarrow> int \<Rightarrow> credential \<Rightarrow> error + row option" where
  "verifyToken L secret now token =
     (case jwt_verify L now token secret of
        Inr decoded \<Rightarrow> Inr (Some decoded)
      | Inl err \<Rightarrow> Inr None)"

section \<open>The authentication service (services/auth.js)\<close>

text \<open>\<open>const { password: _, ...userWithoutPassword } = user\<close>.\<close>

definition without_password :: "row \<Rightarrow> row" where
  "without_password user = filter (\<lambda>(k, v). k \<noteq> ''password'') user"

text \<open>An object literal's property whose value may be undefined (JSON then omits it).\<close>

definition js_prop :: "string \<Rightarrow> jsval option \<Rightarrow> row" where
  "js_prop k v = (case v of None \<Rightarrow> [] | Some x \<Rightarrow> [(k, x)])"

definition token_payload :: "row \<Rightarrow> row" where
  "token_payload user =
     js_prop ''id'' (field_of user ''id'') @ js_prop ''email'' (field_of user ''email'') @
     js_prop ''naam'' (field_of user ''naam'') @ js_prop ''role'' (field_of user ''role'') @
     [(''isAdmin'', VBool (field_of user ''role'' = Some (VStr ''admin'')))]"

text \<open>The returned object \<open>{ user, token }\<close>.\<close>

record auth_result =
  res_user :: row
  res_token :: credential

definition register ::
  "libs \<Rightarrow> string \<Rightarrow> int \<Rightarrow> string \<Rightarrow> new_user \<Rightarrow> database \<Rightarrow> (error + auth_result) \<times> database" where
  "register L secret now created userData db =
     (case getUserByEmail db (VStr (nu_email userData)) of
        Some existingUser \<Rightarrow> (Inl (Error ''User with this email already exists''), db)
      | None \<Rightarrow>
          (let saltRounds = 12;
               hashedPassword = bcrypt_hash L (nu_password userData) saltRounds;
               (userId, db') = createUser created (userData\<lparr>nu_password := hashedPassword\<rparr>) db
           in case getUserById db' (VInt userId) of
                None \<Rightarrow> (Inl (Error ''Cannot read properties of undefined''), db')
              | Some user \<Rightarrow>
                  (case generateToken L secret now (token_payload user) of
                     Inl e \<Rightarrow> (Inl e, db')
                   | Inr token \<Rightarrow>
                       (Inr \<lparr>res_user = without_password user, res_token = token\<rparr>, db'))))"

text \<open>\<open>bcrypt.compare\<close> throws unless both of its arguments are strings.\<close>

definition login ::
  "libs \<Rightarrow> string \<Rightarrow> int \<Rightarrow> string \<Rightarrow> string \<Rightarrow> database \<Rightarrow> error + auth_result" where
  "login L secret now email password db =
     (case getUserByEmail db (VStr email) of
        None \<Rightarrow> Inl (Error ''Invalid email or password'')
      | Some user \<Rightarrow>
          (case field_of user ''password'' of
             Some (VStr hash) \<Rightarrow>
               if \<not> bcrypt_compare L password hash then Inl (Error ''Invalid email or password'')
               else (case generateToken L secret now (token_payload user) of
                       Inl e \<Rightarrow> Inl e
                     | Inr token \<Rightarrow> Inr \<lparr>res_user = without_password user, res_token = token\<rparr>)
           | _ \<Rightarrow> Inl (Error ''data and hash must be strings'')))"

definition getProfile :: "database \<Rightarrow> jsval \<Rightarrow> error + row" where
  "getProfile db userId =
     (case getUserById db userId of
        None \<Rightarrow> Inl (Error ''User not found'')
      | Some user \<Rightarrow> Inr (without_password user))"

text \<open>
  \<open>AuthService.verifyToken\<close>: every exception inside its \<open>try\<close> block is replaced by
  \<open>Error('Invalid or expired token')\<close>.
\<close>

definition AuthService_verifyToken ::
  "libs \<Rightarrow> string \<Rightarrow> int \<Rightarrow> credential \<Rightarrow> database \<Rightarrow> error + row" where
  "AuthService_verifyToken L secret now token db =
     (case verifyToken L secret now token of
        Inr (Some decoded) \<Rightarrow>
          (case getUserById db (sql_param (field_of decoded ''id'')) of
             None \<Rightarrow> Inl (Error ''Invalid or expired token'')
           | Some user \<Rightarrow> Inr (without_password user))
      | _ \<Rightarrow> Inl (Error ''Invalid or expired token''))"

text \<open>Stand-ins for the library functions, for examples.\<close>

definition example_libs :: libs where
  "example_libs =
     \<lparr>signature_ok = (\<lambda>secret header p s. s = secret @ concat (map fst p)),
      sign_with = (\<lambda>secret header p. Inr (secret @ concat (map fst p))),
      bcrypt_hash = (\<lambda>password rounds. ''hash:'' @ password),
      bcrypt_compare = (\<lambda>password hash. hash = ''hash:'' @ password)\<rparr>"

definition example_user :: new_user where
  "example_user = \<lparr>nu_naam = ''Dia'', nu_email = ''dia@school.nl'', nu_password = ''geheim4'',
                    nu_role = None\<rparr>"

definition example_header :: row where
  "example_header = [(''alg'', VStr ''HS256''), (''typ'', VStr ''JWT'')]"

section \<open>Library question lists (routes/dashboard.js)\<close>

text \<open>
  \<open>db.all\<close> on the library table: the rows that satisfy the WHERE clause, ordered by
  \<open>id DESC\<close>; the call throws when the table cannot be queried.
\<close>

definition order_by_id_desc :: "row list \<Rightarrow> row list" where
  "order_by_id_desc rows = sort_key (\<lambda>r. - id_int r) rows"

definition all_bibliotheek :: "database \<Rightarrow> (row \<Rightarrow> bool) \<Rightarrow> error + row list" where
  "all_bibliotheek db wh =
     (case bibliotheek_vragenlijsten db of
        None \<Rightarrow> Inl (Error ''no such table: bibliotheek_vragenlijsten'')
      | Some tbl \<Rightarrow> Inr (order_by_id_desc (filter wh tbl)))"

text \<open>
  Both handlers choose the query by \<open>req.user.id === 3\<close>, where \<open>req.user\<close> is the decoded
  token payload; the second query has \<open>WHERE licentie_type != 'verborgen'\<close>.
\<close>

definition select_biblio_lijsten :: "database \<Rightarrow> row \<Rightarrow> error + row list" where
  "select_biblio_lijsten db req_user =
     (if field_of req_user ''id'' = Some (VInt 3)
      then all_bibliotheek db (\<lambda>r. True)
      else all_bibliotheek db (\<lambda>r. sql_ne (col r ''licentie_type'') (VStr ''verborgen'')))"

text \<open>
  The \<open>biblio_lijsten\<close> entry of the payload of \<open>GET /api/dashboard\<close>: a failing query is
  caught and leaves the empty list.
\<close>

definition dashboard_biblio_lijsten :: "database \<Rightarrow> row \<Rightarrow> row list" where
  "dashboard_biblio_lijsten db req_user =
     (case select_biblio_lijsten db req_user of Inl err \<Rightarrow> [] | Inr rows \<Rightarrow> rows)"

text \<open>
  \<open>GET /api/dashboard/bibliotheek\<close>: the response \<open>{ biblio_lijsten }\<close>, or the error handed to
  \<open>next\<close>.
\<close>

definition bibliotheek :: "database \<Rightarrow> row \<Rightarrow> error + row list" where
  "bibliotheek db req_user = select_biblio_lijsten db req_user"

definition verborgen :: "row \<Rightarrow> bool" where
  "verborgen r \<longleftrightarrow> col r ''licentie_type'' = VStr ''verborgen''"

definition stored_biblio :: "database \<Rightarrow> row set" where
  "stored_biblio db = (case bibliotheek_vragenlijsten db of None \<Rightarrow> {} | Some tbl \<Rightarrow> set tbl)"

section \<open>Transactions (services/database.js, \<open>transaction\<close>)\<close>

text \<open>
  The connection to the database engine, which is not part of the repository: the committed
  state and, while a transaction is open, the working state that the statements of the
  transaction see and change. \<open>BEGIN TRANSACTION\<close>, \<open>COMMIT\<close> and \<open>ROLLBACK\<close> are the
  engine's: inside an open transaction BEGIN fails, without one COMMIT and ROLLBACK fail.
\<close>

record 's connection =
  committed :: 's
  working :: "'s option"

definition exec_begin :: "'s connection \<Rightarrow> error + 's connection" where
  "exec_begin c =
     (case working c of
        Some w \<Rightarrow> Inl (Error ''cannot start a transaction within a transaction'')
      | None \<Rightarrow> Inr (c\<lparr>working := Some (committed c)\<rparr>))"

definition exec_commit :: "'s connection \<Rightarrow> error + 's connection" where
  "exec_commit c =
     (case working c of
        None \<Rightarrow> Inl (Error ''cannot commit - no transaction is active'')
      | Some w \<Rightarrow> Inr (c\<lparr>committed := w, working := None\<rparr>))"

definition exec_rollback :: "'s connection \<Rightarrow> error + 's connection" where
  "exec_rollback c =
     (case working c of
        None \<Rightarrow> Inl (Error ''cannot rollback - no transaction is active'')
      | Some w \<Rightarrow> Inr (c\<lparr>working := None\<rparr>))"

text \<open>
  The driver's \<open>run\<close>, \<open>get\<close> and \<open>all\<close> execute whatever SQL text they are given: a
  statement acts on the connection, so besides reading and changing data it may itself
  begin, commit or roll back a transaction. It returns a result or throws, and leaves the
  connection in some state either way.
\<close>

type_synonym ('s, 'r) statement_fn =
  "string \<Rightarrow> jsval list \<Rightarrow> 's connection \<Rightarrow> (error + 'r) \<times> 's connection"

record ('s, 'r) driver =
  drv_run :: "('s, 'r) statement_fn"
  drv_get :: "('s, 'r) statement_fn"
  drv_all :: "('s, 'r) statement_fn"



text \<open>An element of the \<open>queries\<close> array: \<open>{ type, sql, params = [] }\<close>.\<close>

record query =
  q_type :: "string option"
  q_sql :: string
  q_params :: "jsval list option"

text \<open>The body of the \<open>for\<close> loop: the branch taken for one query.\<close>

definition query_fn ::
  "('s, 'r) driver \<Rightarrow> query \<Rightarrow> 's connection \<Rightarrow> (error + 'r) \<times> 's connection" where
  "query_fn D q =
     (let sql = q_sql q;
          params = (case q_params q of None \<Rightarrow> [] | Some ps \<Rightarrow> ps)
      in if q_type q = Some ''run'' then drv_run D sql params
         else if q_type q = Some ''get'' then drv_get D sql params
         else if q_type q = Some ''all'' then drv_all D sql params
         else drv_run D sql params)"

text \<open>The loop, with the exception of a failing query leaving it.\<close>

fun run_queries ::
  "('s, 'r) driver \<Rightarrow> query list \<Rightarrow> 'r list \<Rightarrow> 's connection \<Rightarrow> (error + 'r list) \<times> 's connection" where
  "run_queries D [] results c = (Inr results, c)"
| "run_queries D (q # queries) results c =
     (case query_fn D q c of
        (Inl e, c') \<Rightarrow> (Inl e, c')
      | (Inr result, c') \<Rightarrow> run_queries D queries (results @ [result]) c')"

text \<open>
  The service object holds the connection once \<open>initialize\<close> has run; \<open>getInstance\<close> throws
  before that.
\<close>

definition getInstance :: "'s connection option \<Rightarrow> error + 's connection" where
  "getInstance svc =
     (case svc of None \<Rightarrow> Inl (Error ''Database not initialized'') | Some c \<Rightarrow> Inr c)"

text \<open>
  \<open>transaction\<close>: BEGIN is outside the \<open>try\<close> block, the loop and COMMIT are inside it, and
  the \<open>catch\<close> block runs ROLLBACK and throws the caught error again (or the error of a
  failing ROLLBACK). The function returns the results or the thrown error, and the
  service's connection as the call leaves it.
\<close>

definition catch_rollback :: "error \<Rightarrow> 's connection \<Rightarrow> (error + 'r list) \<times> 's connection" where
  "catch_rollback e c =
     (case exec_rollback c of
        Inl e' \<Rightarrow> (Inl e', c)
      | Inr c' \<Rightarrow> (Inl e, c'))"

definition transaction ::
  "('s, 'r) driver \<Rightarrow> query list \<Rightarrow> 's connection option \<Rightarrow>
   (error + 'r list) \<times> 's connection option" where
  "transaction D queries svc =
     (case getInstance svc of
        Inl e \<Rightarrow> (Inl e, svc)
      | Inr db \<Rightarrow>
          (case exec_begin db of
             Inl e \<Rightarrow> (Inl e, Some db)
           | Inr c1 \<Rightarrow>
               (case run_queries D queries [] c1 of
                  (Inl e, c2) \<Rightarrow> map_prod id Some (catch_rollback e c2)
                | (Inr results, c2) \<Rightarrow>
                    (case exec_commit c2 of
                       Inl e \<Rightarrow> map_prod id Some (catch_rollback e c2)
                     | Inr c3 \<Rightarrow> (Inr results, Some c3)))))"









section \<open>The live quiz session engine\<close>

text \<open>
  The session routes of the repository (starting a session, the event stream, answer
  submission, violation recording) are not among its source files here; only the
  configuration they read (\<open>config.session\<close>) and the validation schemas for their requests
  are. The engine is therefore modelled from the specification, sections 3, 4 and 6.
\<close>

text \<open>Modelled from the spec: the session states of section 4.1 (the state machine is missing).\<close>

datatype status = pending | question_active | question_closed | ended

text \<open>Modelled from the spec: the error taxonomy of section 7 (the engine is missing).\<close>

datatype engine_error = Forbidden | InvalidState | Duplicate | NotFound

text \<open>
  Modelled from the spec: whether a question is graded automatically (closed form) or left
  for the teacher's review (open form), section 4.4.
\<close>

datatype question_form = closed_form | open_form

text \<open>
  Modelled from the spec: a question of the ordered question list, with its stored correct
  answer and its points.
\<close>

record question =
  questionId :: nat
  form :: question_form
  correct :: string
  points :: int

text \<open>Modelled from the spec: \<open>Participant{id, sessionId, studentId, violationCount, removed, score}\<close>.\<close>

record participant =
  participantId :: nat
  studentId :: nat
  violationCount :: nat
  removed :: bool
  score :: int

text \<open>
  Modelled from the spec: \<open>Answer{id, sessionId, participantId, questionId, payload,
  submittedAt, score}\<close>; the score is null for an ungraded open-form answer.
\<close>

record answer =
  ans_participant :: nat
  ans_question :: nat
  ans_payload :: string
  ans_submittedAt :: int
  ans_score :: "int option"

text \<open>
  Modelled from the spec: the Broadcast Events of section 6, each carried with the session's
  sequence number.
\<close>

datatype event_body =
  ev_question_started nat int
| ev_question_closed nat
| ev_participant_removed nat
| ev_violation_warning nat nat nat
| ev_answer_received nat int
| ev_session_ended

type_synonym event = "nat \<times> event_body"

text \<open>
  Modelled from the spec: \<open>Session{id, teacherId, classId, listId, status,
  currentQuestionIndex, deadline}\<close> together with what the store keeps for the session: its
  ordered questions, its participants, its answers, and the next event sequence number.
\<close>

record session =
  teacherId :: nat
  classId :: nat
  listId :: nat
  questionList :: "question list"
  status :: status
  currentQuestionIndex :: "nat option"
  deadline :: "int option"
  participants :: "participant list"
  answers :: "answer list"
  nextSeq :: nat

text \<open>
  Modelled from the spec: the settings the engine is configured with, the per-question
  duration, the violation threshold and the normalisation used for grading. \<open>config_session\<close>
  takes the first two from \<open>config.session\<close> in config/index.js.
\<close>

record engine_config =
  questionDuration :: int
  violationThreshold :: nat
  normalize :: "string \<Rightarrow> string"

definition config_session :: engine_config where
  "config_session = \<lparr>questionDuration = config_session_questionDuration,
                      violationThreshold = config_session_violationThreshold,
                      normalize = (\<lambda>s. s)\<rparr>"

text \<open>Modelled from the spec: \<open>startSession\<close> creates the session in state pending (section 6).\<close>

definition new_session :: "nat \<Rightarrow> nat \<Rightarrow> nat \<Rightarrow> question list \<Rightarrow> session" where
  "new_session teacher klas lst qs =
     \<lparr>teacherId = teacher, classId = klas, listId = lst, questionList = qs, status = pending,
      currentQuestionIndex = None, deadline = None, participants = [], answers = [], nextSeq = 0\<rparr>"

text \<open>
  Modelled from the spec: every transition emits one Broadcast Event, with a sequence number
  that increases per session (sections 4.1 and 6).
\<close>

definition emit :: "session \<Rightarrow> event_body \<Rightarrow> session \<times> event list" where
  "emit s b = (s\<lparr>nextSeq := nextSeq s + 1\<rparr>, [(nextSeq s, b)])"

text \<open>
  Modelled from the spec: a session that ends has no current question, and its participants
  are removed (section 3).
\<close>

definition finish :: "session \<Rightarrow> session" where
  "finish s = s\<lparr>status := ended, currentQuestionIndex := None, deadline := None,
                participants := map (\<lambda>p. p\<lparr>removed := True\<rparr>) (participants s)\<rparr>"

text \<open>
  Modelled from the spec: \<open>start(session, teacher)\<close>, pending to question_active for question
  index 0 with deadline now + per-question duration; Forbidden if the caller is not the
  owning teacher, InvalidState if not pending.
\<close>

definition start :: "engine_config \<Rightarrow> session \<Rightarrow> nat \<Rightarrow> int \<Rightarrow> engine_error + session \<times> event list" where
  "start cfg s teacher now =
     (if teacher \<noteq> teacherId s then Inl Forbidden
      else if status s \<noteq> pending then Inl InvalidState
      else Inr (emit (s\<lparr>status := question_active, currentQuestionIndex := Some 0,
                         deadline := Some (now + questionDuration cfg)\<rparr>)
                  (ev_question_started 0 (now + questionDuration cfg))))"

text \<open>
  Modelled from the spec: \<open>advance(session, teacher)\<close>, question_closed to question_active for
  the next index, or to ended if no questions remain; InvalidState unless in question_closed.
\<close>

definition advance :: "engine_config \<Rightarrow> session \<Rightarrow> nat \<Rightarrow> int \<Rightarrow> engine_error + session \<times> event list" where
  "advance cfg s teacher now =
     (if teacher \<noteq> teacherId s then Inl Forbidden
      else if status s \<noteq> question_closed then Inl InvalidState
      else (case currentQuestionIndex s of
              None \<Rightarrow> Inl InvalidState
            | Some i \<Rightarrow>
                if i + 1 < length (questionList s)
                then Inr (emit (s\<lparr>status := question_active, currentQuestionIndex := Some (i + 1),
                                   deadline := Some (now + questionDuration cfg)\<rparr>)
                            (ev_question_started (i + 1) (now + questionDuration cfg)))
                else Inr (emit (finish s) ev_session_ended)))"

text \<open>
  Modelled from the spec: \<open>forceClose(session, teacher)\<close>, question_active to question_closed
  at once.
\<close>

definition forceClose :: "session \<Rightarrow> nat \<Rightarrow> engine_error + session \<times> event list" where
  "forceClose s teacher =
     (if teacher \<noteq> teacherId s then Inl Forbidden
      else if status s \<noteq> question_active then Inl InvalidState
      else Inr (emit (s\<lparr>status := question_closed\<rparr>)
                  (ev_question_closed (case currentQuestionIndex s of None \<Rightarrow> 0 | Some i \<Rightarrow> i))))"

text \<open>
  Modelled from the spec: \<open>expire(session)\<close>, driven by the timer: question_active to
  question_closed when now is at or after the deadline; in any other state the call is
  discarded silently.
\<close>

definition expire :: "session \<Rightarrow> int \<Rightarrow> session \<times> event list" where
  "expire s now =
     (if status s = question_active \<and> (case deadline s of None \<Rightarrow> False | Some d \<Rightarrow> d \<le> now)
      then emit (s\<lparr>status := question_closed\<rparr>)
             (ev_question_closed (case currentQuestionIndex s of None \<Rightarrow> 0 | Some i \<Rightarrow> i))
      else (s, []))"

text \<open>
  Modelled from the spec: \<open>end(session, teacher)\<close>, any non-terminal state to ended,
  irreversible.
\<close>

definition end_session :: "session \<Rightarrow> nat \<Rightarrow> engine_error + session \<times> event list" where
  "end_session s teacher =
     (if teacher \<noteq> teacherId s then Inl Forbidden
      else if status s = ended then Inl InvalidState
      else Inr (emit (finish s) ev_session_ended))"

text \<open>Modelled from the spec: the stored participant with a given id.\<close>

definition participant_of :: "session \<Rightarrow> nat \<Rightarrow> participant option" where
  "participant_of s pid = find (\<lambda>p. participantId p = pid) (participants s)"

text \<open>Modelled from the spec: a change to the stored participant with a given id.\<close>

definition update_participant :: "nat \<Rightarrow> (participant \<Rightarrow> participant) \<Rightarrow> session \<Rightarrow> session" where
  "update_participant pid f s =
     s\<lparr>participants := map (\<lambda>p. if participantId p = pid then f p else p) (participants s)\<rparr>"

text \<open>
  Modelled from the spec: \<open>joinSession(sessionId, studentId)\<close> gives the participant id; the
  participant is created on the first join.
\<close>

definition joinSession :: "session \<Rightarrow> nat \<Rightarrow> nat \<times> session" where
  "joinSession s student =
     (case find (\<lambda>p. studentId p = student) (participants s) of
        Some p \<Rightarrow> (participantId p, s)
      | None \<Rightarrow>
          (let pid = fold (\<lambda>p m. max m (participantId p)) (participants s) 0 + 1
           in (pid, s\<lparr>participants := participants s @
                        [\<lparr>participantId = pid, studentId = student, violationCount = 0,
                          removed = False, score = 0\<rparr>]\<rparr>)))"

text \<open>
  Modelled from the spec: \<open>recordViolation(session, participant, kind)\<close> of section 4.2. The
  count is incremented; at or above the threshold the participant is marked removed and
  \<open>participant_removed\<close> is emitted, below it \<open>violation_warning\<close> with the current count
  and the threshold. For an already removed participant the call is a no-op; an unknown
  participant is NotFound. The kind is an opaque tag.
\<close>

definition recordViolation ::
  "engine_config \<Rightarrow> session \<Rightarrow> nat \<Rightarrow> string \<Rightarrow> engine_error + session \<times> event list" where
  "recordViolation cfg s pid kind =
     (case participant_of s pid of
        None \<Rightarrow> Inl NotFound
      | Some p \<Rightarrow>
          if removed p then Inr (s, [])
          else (let n = violationCount p + 1
                in if n \<ge> violationThreshold cfg
                   then Inr (emit (update_participant pid
                                     (\<lambda>p. p\<lparr>violationCount := n, removed := True\<rparr>) s)
                               (ev_participant_removed pid))
                   else Inr (emit (update_participant pid (\<lambda>p. p\<lparr>violationCount := n\<rparr>) s)
                               (ev_violation_warning pid n (violationThreshold cfg)))))"

text \<open>Modelled from the spec: the question that is live, if any.\<close>

definition current_question :: "session \<Rightarrow> question option" where
  "current_question s =
     (case currentQuestionIndex s of
        None \<Rightarrow> None
      | Some i \<Rightarrow> if i < length (questionList s) then Some (questionList s ! i) else None)"

text \<open>Modelled from the spec: whether an Answer exists for (participant, question).\<close>

definition has_answer :: "session \<Rightarrow> nat \<Rightarrow> nat \<Rightarrow> bool" where
  "has_answer s pid qid \<longleftrightarrow> (\<exists>a\<in>set (answers s). ans_participant a = pid \<and> ans_question a = qid)"

text \<open>
  Modelled from the spec: grading of section 4.4, a normalised match against the stored
  correct answer for closed forms, no score for open forms.
\<close>

definition grade :: "engine_config \<Rightarrow> question \<Rightarrow> string \<Rightarrow> int option" where
  "grade cfg q payload =
     (case form q of
        open_form \<Rightarrow> None
      | closed_form \<Rightarrow>
          Some (if normalize cfg payload = normalize cfg (correct q) then points q else 0))"

text \<open>
  Modelled from the spec: \<open>submit(session, participant, question, answer, submittedAt)\<close> of
  section 4.4, with the rejections in the order the section lists them: InvalidState unless
  the session is in question_active and the question is the current one; Forbidden if the
  participant is removed or not a member; Duplicate if an Answer exists for the pair. On
  success the Answer is stored, the score is added to the participant's total, and
  \<open>answer_received\<close> is emitted with the participant id and the timestamp only.
\<close>

definition submit ::
  "engine_config \<Rightarrow> session \<Rightarrow> nat \<Rightarrow> nat \<Rightarrow> string \<Rightarrow> int \<Rightarrow> engine_error + session \<times> event list" where
  "submit cfg s pid qid payload submittedAt =
     (case (if status s = question_active then current_question s else None) of
        None \<Rightarrow> Inl InvalidState
      | Some q \<Rightarrow>
          if questionId q \<noteq> qid then Inl InvalidState
          else (case participant_of s pid of
                  None \<Rightarrow> Inl Forbidden
                | Some p \<Rightarrow>
                    if removed p then Inl Forbidden
                    else if has_answer s pid qid then Inl Duplicate
                    else (let sc = grade cfg q payload;
                              a = \<lparr>ans_participant = pid, ans_question = qid, ans_payload = payload,
                                   ans_submittedAt = submittedAt, ans_score = sc\<rparr>;
                              s1 = s\<lparr>answers := answers s @ [a]\<rparr>;
                              s2 = update_participant pid
                                     (\<lambda>p. p\<lparr>score := score p + (case sc of None \<Rightarrow> 0 | Some v \<Rightarrow> v)\<rparr>) s1
                          in Inr (emit s2 (ev_answer_received pid submittedAt)))))"

text \<open>
  Modelled from the spec: the calls that reach one session, serialised (section 5). A
  rejected call leaves the session as it is.
\<close>

datatype command =
  Start nat int
| Advance nat int
| ForceClose nat
| Expire int
| End nat
| Join nat
| RecordViolation nat string
| Submit nat nat string int

text \<open>Modelled from the spec: the session after a call, which is rejected or succeeds.\<close>

definition keep :: "session \<Rightarrow> engine_error + session \<times> event list \<Rightarrow> session" where
  "keep s r = (case r of Inl e \<Rightarrow> s | Inr (s', evs) \<Rightarrow> s')"

text \<open>Modelled from the spec: the session after one call.\<close>

fun step :: "engine_config \<Rightarrow> session \<Rightarrow> command \<Rightarrow> session" where
  "step cfg s (Start teacher now) = keep s (start cfg s teacher now)"
| "step cfg s (Advance teacher now) = keep s (advance cfg s teacher now)"
| "step cfg s (ForceClose teacher) = keep s (forceClose s teacher)"
| "step cfg s (Expire now) = fst (expire s now)"
| "step cfg s (End teacher) = keep s (end_session s teacher)"
| "step cfg s (Join student) = snd (joinSession s student)"
| "step cfg s (RecordViolation pid kind) = keep s (recordViolation cfg s pid kind)"
| "step cfg s (Submit pid qid payload submittedAt) = keep s (submit cfg s pid qid payload submittedAt)"

text \<open>Modelled from the spec: the session after a sequence of calls.\<close>

fun run :: "engine_config \<Rightarrow> session \<Rightarrow> command list \<Rightarrow> session" where
  "run cfg s [] = s"
| "run cfg s (c # cs) = run cfg (step cfg s c) cs"

text \<open>An example: teacher 1 runs a list of two questions.\<close>

definition example_questions :: "question list" where
  "example_questions =
     [\<lparr>questionId = 10, form = closed_form, correct = ''huis'', points = 2\<rparr>,
      \<lparr>questionId = 11, form = open_form, correct = ''boom'', points = 1\<rparr>]"

definition example_session :: session where
  "example_session = new_session 1 5 6 example_questions"

text \<open>The consistency of the current question index with the status (section 3 of the spec).\<close>

definition index_inv :: "session \<Rightarrow> bool" where
  "index_inv s \<longleftrightarrow> (currentQuestionIndex s = None) = (status s = pending \<or> status s = ended)"

text \<open>At most one Answer per (participant, question).\<close>

definition answer_key :: "answer \<Rightarrow> nat \<times> nat" where
  "answer_key a = (ans_participant a, ans_question a)"

definition answers_unique :: "session \<Rightarrow> bool" where
  "answers_unique s \<longleftrightarrow> distinct (map answer_key (answers s))"

text \<open>Sessions reached in the example: after a join and the start, and later on.\<close>

definition example_live :: session where
  "example_live = run config_session example_session [Join 7, Start 1 0]"

definition example_removed :: session where
  "example_removed = run config_session example_live
     [RecordViolation 1 ''visibility-lost'', RecordViolation 1 ''disconnect'',
      RecordViolation 1 ''visibility-lost'']"

definition example_answered :: session where
  "example_answered = run config_session example_live [Submit 1 10 ''huis'' 5]"

definition example_closed :: session where
  "example_closed = run config_session example_answered [ForceClose 1]"

section \<open>Configured thresholds\<close>

text \<open>
  The top-level violation threshold defaults to 1 when the environment variable is unset or
  empty, is the number the variable spells, and is NaN when it spells none.
\<close>

lemma config_violationThreshold_examples:
  "config_violationThreshold None = Some 1"
  "config_violationThreshold (Some []) = Some 1"
  "config_violationThreshold (Some ''3'') = Some 3"
  "config_violationThreshold (Some '' 12px'') = Some 12"
  "config_violationThreshold (Some ''drie'') = None"
  by (simp_all add: config_violationThreshold_def parseInt10_def parse_digits_def is_digit_def
        digit_value_def)

section \<open>Rate limiting: the sliding-window bound\<close>

lemma stored_handler_other:
  "k \<noteq> key \<Longrightarrow> stored (snd (rl_handler w mx key now st)) k = stored st k"
  by (simp add: rl_handler_def stored_def Let_def split: option.splits if_splits)

lemma handler_accept_iff:
  "is_Next (fst (rl_handler w mx key now st)) \<longleftrightarrow>
   length (filter (\<lambda>a. a > now - w) (stored st key)) < mx"
  by (simp add: rl_handler_def stored_def Let_def split: option.splits if_splits)

lemma stored_handler_same:
  "stored (snd (rl_handler w mx key now st)) key =
     filter (\<lambda>a. a > now - w) (stored st key) @
       (if is_Next (fst (rl_handler w mx key now st)) then [now] else [])"
  by (simp add: rl_handler_def stored_def Let_def split: option.splits if_splits)

lemma filter_gt_gt:
  fixes c d :: int
  assumes "d \<le> c"
  shows "filter (\<lambda>a. a > c) (filter (\<lambda>a. a > d) xs) = filter (\<lambda>a. a > c) xs"
  using assms by (induction xs) auto

lemma window_count_bound:
  fixes xs :: "int list"
  assumes "\<forall>a\<in>set xs. a \<le> t"
  shows "filter (in_window w t) xs = filter (\<lambda>a. a > t - w) xs"
  using assms by (induction xs) (auto simp: in_window_def)

lemma rl_inv_step:
  assumes inv: "rl_inv w mx T st A" and le: "T \<le> now"
  shows "rl_inv w mx now (snd (rl_handler w mx key now st))
           (A(key := A key @ (if is_Next (fst (rl_handler w mx key now st)) then [now] else [])))"
    (is "rl_inv w mx now ?st' ?A'")
  unfolding rl_inv_def
proof (rule allI, intro conjI)
  fix k
  show "\<forall>c\<ge>now - w. filter (\<lambda>a. a > c) (stored ?st' k) = filter (\<lambda>a. a > c) (?A' k)"
  proof (intro allI impI)
    fix c assume c: "now - w \<le> c"
    then have cT: "T - w \<le> c" using le by simp
    show "filter (\<lambda>a. a > c) (stored ?st' k) = filter (\<lambda>a. a > c) (?A' k)"
    proof (cases "k = key")
      case False
      then show ?thesis using inv cT by (simp add: stored_handler_other rl_inv_def)
    next
      case True
      have "filter (\<lambda>a. a > c) (stored st key) = filter (\<lambda>a. a > c) (A key)"
        using inv cT by (simp add: rl_inv_def)
      then show ?thesis using True c by (simp add: stored_handler_same filter_gt_gt del: filter_filter)
    qed
  qed
next
  fix k
  have invB: "\<And>a. a \<in> set (A k) \<Longrightarrow> a \<le> T"
    using inv unfolding rl_inv_def by blast
  show "\<forall>a\<in>set (?A' k). a \<le> now"
  proof
    fix a assume "a \<in> set (?A' k)"
    then have "a \<in> set (A k) \<or> a = now" by (auto split: if_splits)
    then show "a \<le> now" using invB le by force
  qed
next
  fix k
  show "\<forall>t. length (filter (in_window w t) (?A' k)) \<le> mx"
  proof
    fix t
    have old: "length (filter (in_window w t) (A k)) \<le> mx" using inv by (simp add: rl_inv_def)
    show "length (filter (in_window w t) (?A' k)) \<le> mx"
    proof (cases "k = key \<and> is_Next (fst (rl_handler w mx key now st)) \<and> in_window w t now")
      case False
      then show ?thesis using old by auto
    next
      case True
      then have k: "k = key" and acc: "is_Next (fst (rl_handler w mx key now st))"
        and win: "t - w < now" "now \<le> t" by (auto simp: in_window_def)
      have invB: "\<And>a. a \<in> set (A key) \<Longrightarrow> a \<le> T"
        using inv unfolding rl_inv_def by blast
      have below: "\<forall>a\<in>set (A key). a \<le> t" using invB le win(2) by force
      have "filter (in_window w t) (A key) = filter (\<lambda>a. a > t - w) (A key)"
        using below by (rule window_count_bound)
      also have "\<dots> = filter (\<lambda>a. a > t - w) (stored st key)"
      proof -
        have "T - w \<le> t - w" using le win(2) by simp
        then show ?thesis using inv unfolding rl_inv_def by simp
      qed
      also have "\<dots> = filter (\<lambda>a. a > t - w) (filter (\<lambda>a. a > now - w) (stored st key))"
        using win(2) by (simp add: filter_gt_gt del: filter_filter)
      finally have "length (filter (in_window w t) (A key))
                      \<le> length (filter (\<lambda>a. a > now - w) (stored st key))"
        by (simp del: filter_filter)
      moreover have "length (filter (\<lambda>a. a > now - w) (stored st key)) < mx"
        using acc by (simp add: handler_accept_iff)
      ultimately show ?thesis using k acc True by simp
    qed
  qed
qed

lemma serve_window_bound:
  assumes "rl_inv w mx T st A" and "sorted (T # map snd reqs)"
  shows "length (filter (in_window w t)
           (A k @ accepted k reqs (fst (serve (rl_handler w mx) st reqs)))) \<le> mx"
  using assms
proof (induction reqs arbitrary: T st A)
  case Nil
  then show ?case by (simp add: rl_inv_def)
next
  case (Cons req reqs)
  obtain key now where req: "req = (key, now)" by (cases req)
  let ?r = "fst (rl_handler w mx key now st)"
  let ?st' = "snd (rl_handler w mx key now st)"
  let ?A' = "A(key := A key @ (if is_Next ?r then [now] else []))"
  have le: "T \<le> now" using Cons.prems(2) req by simp
  have inv': "rl_inv w mx now ?st' ?A'" using Cons.prems(1) le by (rule rl_inv_step)
  have srt: "sorted (now # map snd reqs)" using Cons.prems(2) req by simp
  have IH: "length (filter (in_window w t)
              (?A' k @ accepted k reqs (fst (serve (rl_handler w mx) ?st' reqs)))) \<le> mx"
    using Cons.IH [OF inv' srt] .
  have "A k @ accepted k (req # reqs) (fst (serve (rl_handler w mx) st (req # reqs)))
          = ?A' k @ accepted k reqs (fst (serve (rl_handler w mx) ?st' reqs))"
    by (simp add: req split: prod.splits)
  then show ?case using IH by simp
qed

lemma rl_inv_initial: "rl_inv w mx T Map.empty (\<lambda>_. [])"
  by (simp add: rl_inv_def stored_def)

lemma rl_handler_full:
  assumes "mx \<le> length (filter (\<lambda>time. time > now - w) (stored st key))"
  shows "fst (rl_handler w mx key now st) = TooManyRequests (ceil_div_1000 w)
       \<and> stored (snd (rl_handler w mx key now st)) key
             = filter (\<lambda>time. time > now - w) (stored st key)"
  using assms by (simp add: rl_handler_def stored_def Let_def split: option.splits if_splits)

text \<open>
  Claim C10, as the code has it. Provided the clock read by successive requests never runs
  backwards, for every client key \<open>k\<close> and every instant \<open>t\<close>, at most \<open>max\<close> of the requests
  of \<open>k\<close> that the middleware let through carry a timestamp in the trailing window
  \<open>(t - windowMs, t]\<close>. And whenever the table already holds \<open>max\<close> or more timestamps of the
  key inside the current window, whatever the clock did, the request is answered with status
  429 and its timestamp is not recorded: the key's list is just the cleaned-up list.
\<close>

theorem rateLimit_window_bound:
  "(sorted (map snd reqs) \<longrightarrow>
      length (filter (in_window (eff_windowMs opts) t)
                (accepted k reqs (fst (serve (rateLimit opts) Map.empty reqs))))
        \<le> eff_max opts)
   \<and> (eff_max opts \<le> length (filter (\<lambda>time. time > now - eff_windowMs opts) (stored st key)) \<longrightarrow>
        fst (rateLimit opts key now st) = TooManyRequests (ceil_div_1000 (eff_windowMs opts))
      \<and> stored (snd (rateLimit opts key now st)) key
            = filter (\<lambda>time. time > now - eff_windowMs opts) (stored st key))"
proof (intro conjI impI)
  assume srt: "sorted (map snd reqs)"
  define T where "T = (case reqs of [] \<Rightarrow> 0 | req # _ \<Rightarrow> snd req)"
  have "sorted (T # map snd reqs)" using srt by (cases reqs) (auto simp: T_def)
  from serve_window_bound [OF rl_inv_initial this, where w = "eff_windowMs opts" and mx = "eff_max opts" and t = t and k = k]
  show "length (filter (in_window (eff_windowMs opts) t)
                (accepted k reqs (fst (serve (rateLimit opts) Map.empty reqs))))
        \<le> eff_max opts"
    by (simp add: rateLimit_def)
next
  assume "eff_max opts \<le> length (filter (\<lambda>time. time > now - eff_windowMs opts) (stored st key))"
  then show "fst (rateLimit opts key now st) = TooManyRequests (ceil_div_1000 (eff_windowMs opts))"
    and "stored (snd (rateLimit opts key now st)) key
            = filter (\<lambda>time. time > now - eff_windowMs opts) (stored st key)"
    using rl_handler_full [where mx = "eff_max opts" and now = now and w = "eff_windowMs opts" and st = st and key = key]
    by (simp_all add: rateLimit_def)
qed

theorem rateLimit_window_bound_witness:
  "sorted (map snd [(1::nat, 0::int), (1, 1), (1, 2), (2, 5), (1, 11), (1, 12)])
   \<and> accepted 1 [(1::nat, 0::int), (1, 1), (1, 2), (2, 5), (1, 11), (1, 12)]
        (fst (serve (rateLimit \<lparr>opt_windowMs = Some 10, opt_max = Some 2\<rparr>) Map.empty
               [(1::nat, 0), (1, 1), (1, 2), (2, 5), (1, 11), (1, 12)])) = [0, 1, 11, 12]
   \<and> length (filter (in_window (eff_windowMs \<lparr>opt_windowMs = Some 10, opt_max = Some 2\<rparr>) 12)
        (accepted 1 [(1::nat, 0::int), (1, 1), (1, 2), (2, 5), (1, 11), (1, 12)]
        (fst (serve (rateLimit \<lparr>opt_windowMs = Some 10, opt_max = Some 2\<rparr>) Map.empty
               [(1::nat, 0), (1, 1), (1, 2), (2, 5), (1, 11), (1, 12)]))))
       \<le> eff_max \<lparr>opt_windowMs = Some 10, opt_max = Some 2\<rparr>
   \<and> eff_max \<lparr>opt_windowMs = Some 10, opt_max = Some 2\<rparr>
       \<le> length (filter (\<lambda>time. time > 2 - eff_windowMs \<lparr>opt_windowMs = Some 10, opt_max = Some 2\<rparr>)
                  (stored [1::nat \<mapsto> [0, 1]] 1))
   \<and> fst (rateLimit \<lparr>opt_windowMs = Some 10, opt_max = Some 2\<rparr> (1::nat) 2 [1 \<mapsto> [0, 1]])
       = TooManyRequests 1
   \<and> stored (snd (rateLimit \<lparr>opt_windowMs = Some 10, opt_max = Some 2\<rparr> (1::nat) 2 [1 \<mapsto> [0, 1]])) 1
       = [0, 1]"
  using rateLimit_window_bound [of "[(1::nat, 0::int), (1, 1), (1, 2), (2, 5), (1, 11), (1, 12)]"
          "\<lparr>opt_windowMs = Some 10, opt_max = Some 2\<rparr>" 12 1 2 "[1::nat \<mapsto> [0, 1]]" 1]
  by (simp add: eff_windowMs_def eff_max_def or_default_def rateLimit_def rl_handler_def
        stored_def in_window_def ceil_div_1000_def Let_def)

text \<open>
  Without the condition on the clock the bound fails. With a window of 10 ms and a limit of 2,
  the readings 100, 101, 111, 102 of \<open>Date.now()\<close> let all four requests of one key through:
  the request at 111 drops 100 and 101 from the table, so the request at 102 finds only one
  entry. Three accepted timestamps, 100, 101 and 102, then lie in the window \<open>(92, 102]\<close>.
\<close>

theorem rateLimit_clock_back_counterexample:
  "accepted 1 [(1::nat, 100::int), (1, 101), (1, 111), (1, 102)]
     (fst (serve (rateLimit \<lparr>opt_windowMs = Some 10, opt_max = Some 2\<rparr>) Map.empty
            [(1::nat, 100), (1, 101), (1, 111), (1, 102)])) = [100, 101, 111, 102]
   \<and> length (filter (in_window (eff_windowMs \<lparr>opt_windowMs = Some 10, opt_max = Some 2\<rparr>) 102)
        (accepted 1 [(1::nat, 100::int), (1, 101), (1, 111), (1, 102)]
           (fst (serve (rateLimit \<lparr>opt_windowMs = Some 10, opt_max = Some 2\<rparr>) Map.empty
                  [(1::nat, 100), (1, 101), (1, 111), (1, 102)])))) = 3
   \<and> eff_max \<lparr>opt_windowMs = Some 10, opt_max = Some 2\<rparr> = 2"
  by (simp add: eff_windowMs_def eff_max_def or_default_def rateLimit_def rl_handler_def
        in_window_def ceil_div_1000_def Let_def)

section \<open>Who may manage a session\<close>

lemma get_by_id_id: "get_by_id tbl i = Some r \<Longrightarrow> field_of r ''id'' = Some i"
  by (auto simp: get_by_id_def find_Some_iff sql_eq_def col_def field_of_def split: option.splits)

lemma map_of_append_other: "k \<notin> fst ` set e \<Longrightarrow> map_of (z @ e) k = map_of z k"
  by (induction z) (auto simp: map_of_eq_None_iff)

lemma getSessieById_exists:
  "(\<exists>sessie. getSessieById db i = Some sessie \<and> field_of sessie ''docent_id'' = v)
     \<longleftrightarrow> (\<exists>s. get_by_id (sessies db) i = Some s \<and> field_of s ''docent_id'' = v)"
  by (cases "get_by_id (sessies db) i")
     (simp_all add: getSessieById_def field_of_def map_of_append_other del: map_of_append)

text \<open>
  Claim C1, as the code has it. \<open>checkPermission\<close> on a \<open>sessie\<close> resource answers true exactly
  when the caller is a stored user and either has the role \<open>admin\<close> or the session exists
  and its \<open>docent_id\<close> is the caller's id. Every other caller gets false. The answer does not
  depend on the action.
\<close>

theorem checkPermission_sessie_iff:
  "checkPermission db userId ''sessie'' sessieId action \<longleftrightarrow>
     (\<exists>user. getUserById db userId = Some user \<and>
        (field_of user ''role'' = Some (VStr ''admin'') \<or>
         (\<exists>s. get_by_id (sessies db) sessieId = Some s \<and> field_of s ''docent_id'' = Some userId)))"
proof (cases "getUserById db userId")
  case None
  then show ?thesis by (simp add: checkPermission_def)
next
  case (Some user)
  then have uid: "field_of user ''id'' = Some userId"
    by (simp add: getUserById_def get_by_id_id)
  have "checkSessiePermission db user sessieId action \<longleftrightarrow>
          (\<exists>s. get_by_id (sessies db) sessieId = Some s \<and> field_of s ''docent_id'' = Some userId)"
    using getSessieById_exists [of db sessieId "Some userId"] uid
    by (auto simp: checkSessiePermission_def split: option.splits)
  then show ?thesis using Some by (simp add: checkPermission_def)
qed

text \<open>
  The claim as stated fails: the administrator (id 1) is granted the management of session 7,
  which teacher 2 created.
\<close>

theorem checkPermission_admin_counterexample:
  "checkPermission example_db (VInt 1) ''sessie'' (VInt 7) ''advance''
   \<and> getSessieById example_db (VInt 7)
       = Some [(''id'', VInt 7), (''vragenlijst_id'', VInt 6), (''klas_id'', VInt 5),
               (''docent_id'', VInt 2), (''vragenlijst_naam'', VStr ''Woordjes''),
               (''klas_naam'', VStr ''4A''), (''docent_naam'', VStr ''Bob'')]
   \<and> field_of [(''id'', VInt 7), (''vragenlijst_id'', VInt 6), (''klas_id'', VInt 5),
               (''docent_id'', VInt 2), (''vragenlijst_naam'', VStr ''Woordjes''),
               (''klas_naam'', VStr ''4A''), (''docent_naam'', VStr ''Bob'')] ''docent_id''
       \<noteq> Some (VInt 1)"
  by (simp add: checkPermission_def getUserById_def getSessieById_def get_by_id_def example_db_def
        sql_eq_def col_def field_of_def joined_naam_def)

theorem checkPermission_sessie_iff_witness:
  "checkPermission example_db (VInt 2) ''sessie'' (VInt 7) ''advance''
   \<and> \<not> checkPermission example_db (VInt 3) ''sessie'' (VInt 7) ''advance''
   \<and> \<not> checkPermission example_db (VInt 9) ''sessie'' (VInt 7) ''advance''"
  using checkPermission_sessie_iff [of example_db "VInt 2" "VInt 7" "''advance''"]
        checkPermission_sessie_iff [of example_db "VInt 3" "VInt 7" "''advance''"]
        checkPermission_sessie_iff [of example_db "VInt 9" "VInt 7" "''advance''"]
  by (simp add: getUserById_def get_by_id_def example_db_def sql_eq_def col_def field_of_def)

section \<open>Token verification\<close>

lemma verifyToken_returns: "\<exists>r. verifyToken L secret now token = Inr r"
  by (simp add: verifyToken_def split: sum.splits)

lemma verifyToken_cases:
  "verifyToken L secret now token =
     (case token of
        Malformed _ \<Rightarrow> Inr None
      | Jwt header p s \<Rightarrow>
          if signature_ok L secret header p s \<and> active now p \<and> unexpired now p
          then Inr (Some p) else Inr None)"
  by (cases token) (auto simp: verifyToken_def jwt_verify_def)

lemma field_of_set_prop:
  "field_of (set_prop k v r) k' = (if k' = k then Some v else field_of r k')"
proof (cases "k \<in> fst ` set r")
  case False
  then have "map_of r k = None" by (simp add: map_of_eq_None_iff)
  then show ?thesis using False
    by (auto simp: set_prop_def field_of_def map_add_def split: option.splits)
next
  case True
  have "map_of (map (\<lambda>(k', v'). if k' = k then (k', v) else (k', v')) r) k'
          = (if k' = k then (if k \<in> fst ` set r then Some v else None) else map_of r k')"
    by (induction r) (auto simp: rev_image_eqI)
  then show ?thesis using True by (simp add: set_prop_def field_of_def)
qed

lemma field_of_signed_payload:
  "field_of (set_prop ''iss'' i (set_prop ''aud'' a (set_prop ''exp'' e (set_prop ''iat'' t payload)))) k
     = (if k = ''iss'' then Some i else if k = ''aud'' then Some a else if k = ''exp'' then Some e
        else if k = ''iat'' then Some t else field_of payload k)"
  by (simp add: field_of_set_prop)

lemma generateToken_Inr:
  assumes "generateToken L secret t0 payload = Inr tok"
    and "field_of payload ''iat'' = None"
  shows "\<exists>s. tok = Jwt [(''alg'', VStr ''HS256''), (''typ'', VStr ''JWT'')]
                 (set_prop ''iss'' (VStr ''overhoorer'')
                    (set_prop ''aud'' (VStr ''overhoorer-users'')
                       (set_prop ''exp'' (VInt (t0 div 1000 + 24 * 60 * 60))
                          (set_prop ''iat'' (VInt (t0 div 1000)) payload)))) s
           \<and> field_of payload ''exp'' = None \<and> field_of payload ''aud'' = None
           \<and> field_of payload ''iss'' = None"
  using assms
  by (auto simp: generateToken_def jwt_sign_def Let_def split: if_splits sum.splits)

text \<open>
  Claim C7, as the code has it. \<open>verifyToken\<close> never throws: for every credential it returns a
  value. It returns the payload embedded in the token exactly when the token decodes, the
  token library accepts its signature under the configured secret, the time of its \<open>nbf\<close>
  claim, if it has one, has come, and it is unexpired; for every other credential
  (malformed, signed otherwise, not yet active, expired) it returns \<open>null\<close>. A token that
  \<open>generateToken\<close> issued for a payload without iat and nbf claims, and whose signature the
  library accepts, is verified for 24 hours (in whole seconds) and gives back a payload
  with the same principal fields.
\<close>

theorem verifyToken_total_exact:
  "(\<exists>r. verifyToken L secret now token = Inr r)
   \<and> (verifyToken L secret now token = Inr (Some p) \<longleftrightarrow>
        (\<exists>header s. token = Jwt header p s) \<and> signed_with L secret token
        \<and> active now p \<and> unexpired now p)
   \<and> (verifyToken L secret now token = Inr None \<longleftrightarrow>
        \<not> (\<exists>header p s. token = Jwt header p s \<and> signed_with L secret token
                \<and> active now p \<and> unexpired now p))
   \<and> (generateToken L secret t0 payload = Inr (Jwt header' p' s') \<and> signed_with L secret (Jwt header' p' s')
        \<and> field_of payload ''iat'' = None \<and> field_of payload ''nbf'' = None \<longrightarrow>
        (\<forall>k. field_of payload k \<noteq> None \<longrightarrow> field_of p' k = field_of payload k)
        \<and> verifyToken L secret now (Jwt header' p' s')
            = (if now div 1000 < t0 div 1000 + 24 * 60 * 60 then Inr (Some p') else Inr None))"
proof (intro conjI impI)
  show "\<exists>r. verifyToken L secret now token = Inr r" by (rule verifyToken_returns)
  show "verifyToken L secret now token = Inr (Some p) \<longleftrightarrow>
        (\<exists>header s. token = Jwt header p s) \<and> signed_with L secret token
        \<and> active now p \<and> unexpired now p"
    by (cases token) (auto simp: verifyToken_cases signed_with_def)
  show "verifyToken L secret now token = Inr None \<longleftrightarrow>
        \<not> (\<exists>header p s. token = Jwt header p s \<and> signed_with L secret token
                \<and> active now p \<and> unexpired now p)"
    by (cases token) (auto simp: verifyToken_cases signed_with_def)
next
  assume a: "generateToken L secret t0 payload = Inr (Jwt header' p' s') \<and> signed_with L secret (Jwt header' p' s')
        \<and> field_of payload ''iat'' = None \<and> field_of payload ''nbf'' = None"
  let ?p = "set_prop ''iss'' (VStr ''overhoorer'')
              (set_prop ''aud'' (VStr ''overhoorer-users'')
                 (set_prop ''exp'' (VInt (t0 div 1000 + 24 * 60 * 60))
                    (set_prop ''iat'' (VInt (t0 div 1000)) payload)))"
  from a generateToken_Inr [of L secret t0 payload "Jwt header' p' s'"]
  have p': "p' = ?p" and none: "field_of payload ''exp'' = None" "field_of payload ''aud'' = None"
    "field_of payload ''iss'' = None" "field_of payload ''iat'' = None" "field_of payload ''nbf'' = None"
    by auto
  show same: "\<forall>k. field_of payload k \<noteq> None \<longrightarrow> field_of p' k = field_of payload k"
    using none by (auto simp: p' field_of_signed_payload)
  have act: "active now p'" using none by (simp add: active_def p' field_of_signed_payload)
  have exp: "unexpired now p' \<longleftrightarrow> now div 1000 < t0 div 1000 + 24 * 60 * 60"
    by (simp add: unexpired_def p' field_of_signed_payload)
  have sg: "signature_ok L secret header' p' s'" using a by (simp add: signed_with_def)
  show "verifyToken L secret now (Jwt header' p' s')
            = (if now div 1000 < t0 div 1000 + 24 * 60 * 60 then Inr (Some p') else Inr None)"
    using act exp sg by (simp add: verifyToken_cases)
qed

text \<open>
  The claim as stated fails on a token that is signed with the secret and unexpired but
  carries an \<open>nbf\<close> claim that lies ahead: at second 1000 a token with nbf 5000 and exp 9000
  gives \<open>null\<close>.
\<close>

theorem verifyToken_not_before_counterexample:
  "signed_with example_libs ''s3cret''
     (Jwt example_header [(''id'', VInt 2), (''nbf'', VInt 5000), (''exp'', VInt 9000)] ''s3cretidnbfexp'')
   \<and> unexpired 1000000 [(''id'', VInt 2), (''nbf'', VInt 5000), (''exp'', VInt 9000)]
   \<and> verifyToken example_libs ''s3cret'' 1000000
        (Jwt example_header [(''id'', VInt 2), (''nbf'', VInt 5000), (''exp'', VInt 9000)] ''s3cretidnbfexp'')
       = Inr None"
  by (simp add: verifyToken_def jwt_verify_def signed_with_def unexpired_def active_def
        field_of_def example_libs_def)

theorem verifyToken_total_exact_witness:
  "generateToken example_libs ''s3cret'' 1000000 [(''id'', VInt 2), (''role'', VStr ''teacher'')]
     = Inr (Jwt example_header
              [(''id'', VInt 2), (''role'', VStr ''teacher''), (''iat'', VInt 1000),
               (''exp'', VInt 87400), (''aud'', VStr ''overhoorer-users''),
               (''iss'', VStr ''overhoorer'')] ''s3cretidroleiatexpaudiss'')
   \<and> signed_with example_libs ''s3cret'' (Jwt example_header
              [(''id'', VInt 2), (''role'', VStr ''teacher''), (''iat'', VInt 1000),
               (''exp'', VInt 87400), (''aud'', VStr ''overhoorer-users''),
               (''iss'', VStr ''overhoorer'')] ''s3cretidroleiatexpaudiss'')
   \<and> field_of [(''id'', VInt 2), (''role'', VStr ''teacher'')] ''iat'' = None
   \<and> field_of [(''id'', VInt 2), (''role'', VStr ''teacher'')] ''nbf'' = None
   \<and> verifyToken example_libs ''s3cret'' 2000000 (Jwt example_header
              [(''id'', VInt 2), (''role'', VStr ''teacher''), (''iat'', VInt 1000),
               (''exp'', VInt 87400), (''aud'', VStr ''overhoorer-users''),
               (''iss'', VStr ''overhoorer'')] ''s3cretidroleiatexpaudiss'')
       = Inr (Some [(''id'', VInt 2), (''role'', VStr ''teacher''), (''iat'', VInt 1000),
               (''exp'', VInt 87400), (''aud'', VStr ''overhoorer-users''),
               (''iss'', VStr ''overhoorer'')])
   \<and> active 2000000 [(''id'', VInt 2), (''role'', VStr ''teacher''), (''iat'', VInt 1000),
               (''exp'', VInt 87400), (''aud'', VStr ''overhoorer-users''),
               (''iss'', VStr ''overhoorer'')]
   \<and> unexpired 2000000 [(''id'', VInt 2), (''role'', VStr ''teacher''), (''iat'', VInt 1000),
               (''exp'', VInt 87400), (''aud'', VStr ''overhoorer-users''),
               (''iss'', VStr ''overhoorer'')]
   \<and> verifyToken example_libs ''s3cret'' 87400000 (Jwt example_header
              [(''id'', VInt 2), (''role'', VStr ''teacher''), (''iat'', VInt 1000),
               (''exp'', VInt 87400), (''aud'', VStr ''overhoorer-users''),
               (''iss'', VStr ''overhoorer'')] ''s3cretidroleiatexpaudiss'') = Inr None
   \<and> verifyToken example_libs ''other'' 2000000 (Jwt example_header
              [(''id'', VInt 2), (''role'', VStr ''teacher''), (''iat'', VInt 1000),
               (''exp'', VInt 87400), (''aud'', VStr ''overhoorer-users''),
               (''iss'', VStr ''overhoorer'')] ''s3cretidroleiatexpaudiss'') = Inr None
   \<and> verifyToken example_libs ''s3cret'' 2000000 (Malformed ''abc'') = Inr None"
  using verifyToken_total_exact [where L = example_libs and secret = "''s3cret''" and now = 2000000
          and token = "Jwt example_header
              [(''id'', VInt 2), (''role'', VStr ''teacher''), (''iat'', VInt 1000),
               (''exp'', VInt 87400), (''aud'', VStr ''overhoorer-users''),
               (''iss'', VStr ''overhoorer'')] ''s3cretidroleiatexpaudiss''"
          and p = "[(''id'', VInt 2), (''role'', VStr ''teacher''), (''iat'', VInt 1000),
               (''exp'', VInt 87400), (''aud'', VStr ''overhoorer-users''),
               (''iss'', VStr ''overhoorer'')]"
          and ?t0.0 = 1000000 and payload = "[(''id'', VInt 2), (''role'', VStr ''teacher'')]"
          and header' = example_header
          and p' = "[(''id'', VInt 2), (''role'', VStr ''teacher''), (''iat'', VInt 1000),
               (''exp'', VInt 87400), (''aud'', VStr ''overhoorer-users''),
               (''iss'', VStr ''overhoorer'')]" and s' = "''s3cretidroleiatexpaudiss''"]
  by (simp add: verifyToken_def jwt_verify_def generateToken_def jwt_sign_def signed_with_def
        unexpired_def active_def field_of_def example_libs_def example_header_def set_prop_def
        number_or_absent_def Let_def)

section \<open>Returned user objects carry no password\<close>

lemma without_password_keys: "''password'' \<notin> fst ` set (without_password u)"
  by (auto simp: without_password_def)

text \<open>
  Claim C9. Whenever \<open>register\<close>, \<open>login\<close>, \<open>getProfile\<close> or \<open>AuthService.verifyToken\<close>
  returns a user object, that object has no \<open>password\<close> property: the stored row is
  returned with the password column left out.
\<close>

theorem returned_user_without_password:
  "(register L secret now created userData db = (Inr r, db') \<longrightarrow>
      ''password'' \<notin> fst ` set (res_user r))
   \<and> (login L secret now email password db = Inr r' \<longrightarrow>
      ''password'' \<notin> fst ` set (res_user r'))
   \<and> (getProfile db userId = Inr u \<longrightarrow> ''password'' \<notin> fst ` set u)
   \<and> (AuthService_verifyToken L secret now token db = Inr u' \<longrightarrow> ''password'' \<notin> fst ` set u')"
proof (intro conjI impI)
  assume "register L secret now created userData db = (Inr r, db')"
  then have "\<exists>usr. res_user r = without_password usr"
    by (auto simp: register_def Let_def split: option.splits prod.splits sum.splits)
  then show "''password'' \<notin> fst ` set (res_user r)"
    by (metis without_password_keys)
next
  assume "login L secret now email password db = Inr r'"
  then have "\<exists>usr. res_user r' = without_password usr"
    by (auto simp: login_def split: option.splits jsval.splits if_splits sum.splits)
  then show "''password'' \<notin> fst ` set (res_user r')"
    by (metis without_password_keys)
next
  assume "getProfile db userId = Inr u"
  then have "\<exists>usr. u = without_password usr"
    by (auto simp: getProfile_def split: option.splits)
  then show "''password'' \<notin> fst ` set u"
    by (metis without_password_keys)
next
  assume "AuthService_verifyToken L secret now token db = Inr u'"
  then have "\<exists>usr. u' = without_password usr"
    by (auto simp: AuthService_verifyToken_def split: option.splits sum.splits)
  then show "''password'' \<notin> fst ` set u'"
    by (metis without_password_keys)
qed

lemmas ex_defs = register_def login_def getProfile_def AuthService_verifyToken_def
  verifyToken_def jwt_verify_def generateToken_def jwt_sign_def signed_with_def
  unexpired_def active_def set_prop_def number_or_absent_def field_of_def example_libs_def example_db_def example_user_def Let_def
  getUserByEmail_def getUserById_def get_by_id_def sql_eq_def col_def createUser_def
  next_id_def id_int_def without_password_def token_payload_def js_prop_def sql_param_def

theorem returned_user_without_password_witness:
  "fst (register example_libs ''s3cret'' 1000000 ''2024-01-01 00:00:00'' example_user example_db)
     = Inr (projr (fst (register example_libs ''s3cret'' 1000000 ''2024-01-01 00:00:00''
                          example_user example_db)))
   \<and> res_user (projr (fst (register example_libs ''s3cret'' 1000000 ''2024-01-01 00:00:00''
                          example_user example_db)))
       = [(''id'', VInt 4), (''naam'', VStr ''Dia''), (''email'', VStr ''dia@school.nl''),
          (''role'', VStr ''teacher''), (''avatar'', VNull),
          (''created_at'', VStr ''2024-01-01 00:00:00'')]
   \<and> map_sum id res_user (login example_libs ''s3cret'' 1000000 ''bob@school.nl'' ''geheim2'' example_db)
       = Inr [(''id'', VInt 2), (''naam'', VStr ''Bob''), (''email'', VStr ''bob@school.nl''),
              (''role'', VStr ''teacher'')]
   \<and> getProfile example_db (VInt 3)
       = Inr [(''id'', VInt 3), (''naam'', VStr ''Cas''), (''email'', VStr ''cas@school.nl''),
              (''role'', VStr ''teacher'')]
   \<and> AuthService_verifyToken example_libs ''s3cret'' 2000000
        (projr (generateToken example_libs ''s3cret'' 1000000 [(''id'', VInt 2)])) example_db
       = Inr [(''id'', VInt 2), (''naam'', VStr ''Bob''), (''email'', VStr ''bob@school.nl''),
              (''role'', VStr ''teacher'')]
   \<and> ''password'' \<notin> fst ` set (res_user (projr (fst (register example_libs ''s3cret'' 1000000
             ''2024-01-01 00:00:00'' example_user example_db))))
   \<and> ''password'' \<notin> fst ` set (res_user (projr (login example_libs ''s3cret'' 1000000
             ''bob@school.nl'' ''geheim2'' example_db)))
   \<and> ''password'' \<notin> fst ` set (projr (getProfile example_db (VInt 3)))
   \<and> ''password'' \<notin> fst ` set (projr (AuthService_verifyToken example_libs ''s3cret'' 2000000
        (projr (generateToken example_libs ''s3cret'' 1000000 [(''id'', VInt 2)])) example_db))"
  using returned_user_without_password [of example_libs "''s3cret''" 1000000 "''2024-01-01 00:00:00''"
      example_user example_db
      "projr (fst (register example_libs ''s3cret'' 1000000 ''2024-01-01 00:00:00'' example_user example_db))"
      "snd (register example_libs ''s3cret'' 1000000 ''2024-01-01 00:00:00'' example_user example_db)"
      "''bob@school.nl''" "''geheim2''"
      "projr (login example_libs ''s3cret'' 1000000 ''bob@school.nl'' ''geheim2'' example_db)"
      "VInt 3" "projr (getProfile example_db (VInt 3))"
      "projr (generateToken example_libs ''s3cret'' 1000000 [(''id'', VInt 2)])"
      "projr (AuthService_verifyToken example_libs ''s3cret'' 2000000
        (projr (generateToken example_libs ''s3cret'' 1000000 [(''id'', VInt 2)])) example_db)"]
  by (simp add: ex_defs)

section \<open>Hidden library rows\<close>

lemma set_order_by_id_desc: "set (order_by_id_desc rows) = set rows"
  by (simp add: order_by_id_desc_def)

lemma verborgen_not_ne: "verborgen r \<Longrightarrow> \<not> sql_ne (col r ''licentie_type'') (VStr ''verborgen'')"
  by (simp add: verborgen_def sql_ne_def)

lemma select_biblio_lijsten_mem:
  assumes "verborgen r"
  shows "(\<exists>rows. select_biblio_lijsten db req_user = Inr rows \<and> r \<in> set rows)
           \<longleftrightarrow> field_of req_user ''id'' = Some (VInt 3) \<and> r \<in> stored_biblio db"
  using assms verborgen_not_ne [of r]
  by (auto simp: select_biblio_lijsten_def all_bibliotheek_def stored_biblio_def
        set_order_by_id_desc split: option.splits)

text \<open>
  Claim C8. A stored library row whose \<open>licentie_type\<close> is \<open>'verborgen'\<close> is among the rows
  of the dashboard payload, and among the rows of the bibliotheek endpoint, exactly when the
  authenticated user's id is 3; for every other user no such row is returned.
\<close>

theorem verborgen_rows_only_for_user_3:
  "verborgen r \<longrightarrow>
     (r \<in> set (dashboard_biblio_lijsten db req_user)
        \<longleftrightarrow> field_of req_user ''id'' = Some (VInt 3) \<and> r \<in> stored_biblio db)
   \<and> ((\<exists>rows. bibliotheek db req_user = Inr rows \<and> r \<in> set rows)
        \<longleftrightarrow> field_of req_user ''id'' = Some (VInt 3) \<and> r \<in> stored_biblio db)"
proof (intro impI conjI)
  assume v: "verborgen r"
  have "r \<in> set (dashboard_biblio_lijsten db req_user)
          \<longleftrightarrow> (\<exists>rows. select_biblio_lijsten db req_user = Inr rows \<and> r \<in> set rows)"
    by (cases "select_biblio_lijsten db req_user") (simp_all add: dashboard_biblio_lijsten_def)
  then show "r \<in> set (dashboard_biblio_lijsten db req_user)
        \<longleftrightarrow> field_of req_user ''id'' = Some (VInt 3) \<and> r \<in> stored_biblio db"
    using select_biblio_lijsten_mem [OF v] by simp
  show "(\<exists>rows. bibliotheek db req_user = Inr rows \<and> r \<in> set rows)
        \<longleftrightarrow> field_of req_user ''id'' = Some (VInt 3) \<and> r \<in> stored_biblio db"
    using select_biblio_lijsten_mem [OF v] by (simp add: bibliotheek_def)
qed

theorem verborgen_rows_only_for_user_3_witness:
  "verborgen [(''id'', VInt 2), (''titel'', VStr ''Geheim''), (''licentie_type'', VStr ''verborgen'')]
   \<and> [(''id'', VInt 2), (''titel'', VStr ''Geheim''), (''licentie_type'', VStr ''verborgen'')]
        \<in> set (dashboard_biblio_lijsten example_db [(''id'', VInt 3), (''role'', VStr ''teacher'')])
   \<and> [(''id'', VInt 2), (''titel'', VStr ''Geheim''), (''licentie_type'', VStr ''verborgen'')]
        \<notin> set (dashboard_biblio_lijsten example_db [(''id'', VInt 2), (''role'', VStr ''teacher'')])
   \<and> bibliotheek example_db [(''id'', VInt 2), (''role'', VStr ''teacher'')]
        = Inr [[(''id'', VInt 1), (''titel'', VStr ''Open''), (''licentie_type'', VStr ''gratis'')]]"
  using verborgen_rows_only_for_user_3 [of
          "[(''id'', VInt 2), (''titel'', VStr ''Geheim''), (''licentie_type'', VStr ''verborgen'')]"
          example_db "[(''id'', VInt 3), (''role'', VStr ''teacher'')]"]
        verborgen_rows_only_for_user_3 [of
          "[(''id'', VInt 2), (''titel'', VStr ''Geheim''), (''licentie_type'', VStr ''verborgen'')]"
          example_db "[(''id'', VInt 2), (''role'', VStr ''teacher'')]"]
  by (simp add: verborgen_def col_def field_of_def stored_biblio_def example_db_def
        bibliotheek_def select_biblio_lijsten_def all_bibliotheek_def order_by_id_desc_def
        sql_ne_def id_int_def)

section \<open>Transactions are all or nothing for data statements\<close>






section \<open>The session state machine\<close>

lemma keep_cases:
  "keep s r = s' \<Longrightarrow> (\<exists>e. r = Inl e \<and> s' = s) \<or> (\<exists>evs. r = Inr (s', evs))"
  by (auto simp: keep_def split: sum.splits)

lemma index_inv_new: "index_inv (new_session t k l qs)"
  by (simp add: index_inv_def new_session_def)

lemma index_inv_step: "index_inv s \<Longrightarrow> index_inv (step cfg s c)"
proof (cases c)
  case (Start teacher now)
  assume "index_inv s" then show ?thesis using Start
    by (auto simp: index_inv_def keep_def start_def emit_def)
next
  case (Advance teacher now)
  assume "index_inv s" then show ?thesis using Advance
    by (auto simp: index_inv_def keep_def advance_def emit_def finish_def split: option.splits)
next
  case (ForceClose teacher)
  assume "index_inv s" then show ?thesis using ForceClose
    by (auto simp: index_inv_def keep_def forceClose_def emit_def)
next
  case (Expire now)
  assume "index_inv s" then show ?thesis using Expire
    by (auto simp: index_inv_def expire_def emit_def)
next
  case (End teacher)
  assume "index_inv s" then show ?thesis using End
    by (auto simp: index_inv_def keep_def end_session_def emit_def finish_def)
next
  case (Join student)
  assume "index_inv s" then show ?thesis using Join
    by (auto simp: index_inv_def joinSession_def Let_def split: option.splits)
next
  case (RecordViolation pid kind)
  assume "index_inv s" then show ?thesis using RecordViolation
    by (auto simp: index_inv_def keep_def recordViolation_def emit_def update_participant_def
          Let_def split: option.splits)
next
  case (Submit pid qid payload t)
  assume "index_inv s" then show ?thesis using Submit
    by (auto simp: index_inv_def keep_def submit_def emit_def update_participant_def
          Let_def split: option.splits if_splits)
qed

lemma index_inv_run: "index_inv s \<Longrightarrow> index_inv (run cfg s cs)"
  by (induction cs arbitrary: s) (auto simp: index_inv_step)

text \<open>
  Claim C2, as the modelled engine has it. In every state that a sequence of calls reaches
  from a new session, the current question index is null exactly when the status is pending
  or ended; it is non-null in question_active and in question_closed, where the closed
  question is still the current one (\<open>advance\<close> moves on from it to the next index).
\<close>

theorem current_question_index_null_iff:
  "(currentQuestionIndex (run cfg (new_session t k l qs) cmds) = None)
     = (status (run cfg (new_session t k l qs) cmds) = pending
        \<or> status (run cfg (new_session t k l qs) cmds) = ended)"
  using index_inv_run [OF index_inv_new, of cfg t k l qs cmds] by (simp add: index_inv_def)

text \<open>
  The claim as stated fails after a start and a close: the index is still 0, and the status
  is question_closed.
\<close>

theorem current_question_index_counterexample:
  "\<not> (currentQuestionIndex (run config_session (new_session 1 5 6 example_questions)
                                [Start 1 0, ForceClose 1]) \<noteq> None
       \<longleftrightarrow> status (run config_session (new_session 1 5 6 example_questions)
                      [Start 1 0, ForceClose 1]) = question_active)"
  by code_simp

theorem current_question_index_null_iff_witness:
  "currentQuestionIndex (run config_session (new_session 1 5 6 example_questions)
                           [Start 1 0, ForceClose 1, Advance 1 40000, End 1]) = None
   \<and> status (run config_session (new_session 1 5 6 example_questions)
               [Start 1 0, ForceClose 1, Advance 1 40000, End 1]) = ended"
proof -
  have "status (run config_session (new_session 1 5 6 example_questions)
               [Start 1 0, ForceClose 1, Advance 1 40000, End 1]) = ended"
    by code_simp
  then show ?thesis
    using current_question_index_null_iff [of config_session 1 5 6 example_questions
            "[Start 1 0, ForceClose 1, Advance 1 40000, End 1]"]
    by simp
qed

section \<open>Violations\<close>

lemma find_map_update:
  assumes "\<And>p. participantId (f p) = participantId p"
  shows "find (\<lambda>p. participantId p = pid)
           (map (\<lambda>p. if participantId p = pid then f p else p) ps)
         = map_option f (find (\<lambda>p. participantId p = pid) ps)"
  using assms by (induction ps) auto

lemma participant_of_update:
  assumes "\<And>p. participantId (f p) = participantId p"
  shows "participant_of (update_participant pid f s) pid = map_option f (participant_of s pid)"
  using find_map_update [OF assms] by (simp add: participant_of_def update_participant_def)

lemma participant_of_emit: "participant_of (fst (emit s b)) pid = participant_of s pid"
  by (simp add: participant_of_def emit_def)

text \<open>
  Claim C3, as the modelled engine has it. For a participant of the session who is not
  yet removed, a call of \<open>recordViolation\<close> increments the violation count by one; if the
  new count has reached the threshold the participant is marked removed in the same step
  and exactly one \<open>participant_removed\<close> event is emitted, otherwise exactly one
  \<open>violation_warning\<close> event carrying the new count and the threshold. For a participant
  who is already removed the call changes nothing and emits nothing.
\<close>

theorem recordViolation_counts:
  "participant_of s pid = Some p \<longrightarrow>
     (\<not> removed p \<longrightarrow>
        (\<exists>s' evs p'. recordViolation cfg s pid kind = Inr (s', evs)
           \<and> participant_of s' pid = Some p'
           \<and> violationCount p' = violationCount p + 1
           \<and> (if violationThreshold cfg \<le> violationCount p + 1
               then removed p' \<and> evs = [(nextSeq s, ev_participant_removed pid)]
               else \<not> removed p'
                  \<and> evs = [(nextSeq s, ev_violation_warning pid (violationCount p + 1)
                                          (violationThreshold cfg))])))
     \<and> (removed p \<longrightarrow> recordViolation cfg s pid kind = Inr (s, []))"
proof (intro impI conjI)
  assume p: "participant_of s pid = Some p" and act: "\<not> removed p"
  show "\<exists>s' evs p'. recordViolation cfg s pid kind = Inr (s', evs)
           \<and> participant_of s' pid = Some p'
           \<and> violationCount p' = violationCount p + 1
           \<and> (if violationThreshold cfg \<le> violationCount p + 1
               then removed p' \<and> evs = [(nextSeq s, ev_participant_removed pid)]
               else \<not> removed p'
                  \<and> evs = [(nextSeq s, ev_violation_warning pid (violationCount p + 1)
                                          (violationThreshold cfg))])"
  proof (cases "violationThreshold cfg \<le> violationCount p + 1")
    case True
    let ?f = "\<lambda>q. q\<lparr>violationCount := violationCount p + 1, removed := True\<rparr>"
    let ?s1 = "update_participant pid ?f s"
    have rv: "recordViolation cfg s pid kind = Inr (emit ?s1 (ev_participant_removed pid))"
      using p act True by (simp add: recordViolation_def Let_def)
    have "participant_of (fst (emit ?s1 (ev_participant_removed pid))) pid = Some (?f p)"
      using p by (simp add: participant_of_emit participant_of_update)
    moreover have "snd (emit ?s1 (ev_participant_removed pid))
                     = [(nextSeq s, ev_participant_removed pid)]"
      by (simp add: emit_def update_participant_def)
    ultimately show ?thesis using rv True
      by (cases "emit ?s1 (ev_participant_removed pid)") auto
  next
    case False
    let ?f = "\<lambda>q. q\<lparr>violationCount := violationCount p + 1\<rparr>"
    let ?s1 = "update_participant pid ?f s"
    let ?b = "ev_violation_warning pid (violationCount p + 1) (violationThreshold cfg)"
    have rv: "recordViolation cfg s pid kind = Inr (emit ?s1 ?b)"
      using p act False by (simp add: recordViolation_def Let_def)
    have "participant_of (fst (emit ?s1 ?b)) pid = Some (?f p)"
      using p by (simp add: participant_of_emit participant_of_update)
    moreover have "snd (emit ?s1 ?b) = [(nextSeq s, ?b)]"
      by (simp add: emit_def update_participant_def)
    ultimately show ?thesis using rv False act
      by (cases "emit ?s1 ?b") auto
  qed
next
  assume "participant_of s pid = Some p" and "removed p"
  then show "recordViolation cfg s pid kind = Inr (s, [])"
    by (simp add: recordViolation_def)
qed

text \<open>
  The claim as stated, for every participant, fails on a removed one: the third violation
  removed participant 1, and a fourth call neither increments the count nor emits an event.
\<close>

theorem recordViolation_removed_counterexample:
  "map_option violationCount (participant_of example_removed 1) = Some 3
   \<and> map_option removed (participant_of example_removed 1) = Some True
   \<and> recordViolation config_session example_removed 1 ''disconnect'' = Inr (example_removed, [])"
  by code_simp

theorem recordViolation_counts_witness:
  "participant_of example_live 1
     = Some \<lparr>participantId = 1, studentId = 7, violationCount = 0, removed = False, score = 0\<rparr>
   \<and> (\<exists>s' evs p'. recordViolation config_session example_live 1 ''visibility-lost'' = Inr (s', evs)
         \<and> participant_of s' 1 = Some p' \<and> violationCount p' = 1 \<and> \<not> removed p'
         \<and> evs = [(1, ev_violation_warning 1 1 3)])
   \<and> participant_of example_removed 1
     = Some \<lparr>participantId = 1, studentId = 7, violationCount = 3, removed = True, score = 0\<rparr>
   \<and> recordViolation config_session example_removed 1 ''disconnect'' = Inr (example_removed, [])"
proof -
  have h1: "participant_of example_live 1
     = Some \<lparr>participantId = 1, studentId = 7, violationCount = 0, removed = False, score = 0\<rparr>"
    by code_simp
  have n1: "nextSeq example_live = 1" by code_simp
  have h2: "participant_of example_removed 1
     = Some \<lparr>participantId = 1, studentId = 7, violationCount = 3, removed = True, score = 0\<rparr>"
    by code_simp
  show ?thesis
    using h1 h2 n1
      recordViolation_counts [of example_live 1
        "\<lparr>participantId = 1, studentId = 7, violationCount = 0, removed = False, score = 0\<rparr>"
        config_session "''visibility-lost''"]
      recordViolation_counts [of example_removed 1
        "\<lparr>participantId = 1, studentId = 7, violationCount = 3, removed = True, score = 0\<rparr>"
        config_session "''disconnect''"]
    by (simp add: config_session_def config_session_violationThreshold_def)
qed

section \<open>Answer intake\<close>

lemma has_answer_key: "has_answer s pid qid \<longleftrightarrow> (pid, qid) \<in> answer_key ` set (answers s)"
  by (auto simp: has_answer_def answer_key_def image_iff)

lemma answers_keep:
  assumes "\<And>s' evs. r = Inr (s', evs) \<Longrightarrow> answers s' = answers s"
  shows "answers (keep s r) = answers s"
  using assms by (cases r) (auto simp: keep_def)

lemma submit_Inr_answers:
  assumes "submit cfg s pid qid payload t = Inr (s', evs)"
  shows "\<not> has_answer s pid qid \<and> (\<exists>a. answers s' = answers s @ [a] \<and> answer_key a = (pid, qid))"
  using assms
  by (auto simp: submit_def emit_def update_participant_def answer_key_def Let_def
        split: option.splits if_splits)

lemma answers_step:
  "answers (step cfg s c) = answers s
   \<or> (\<exists>a. answers (step cfg s c) = answers s @ [a] \<and> answer_key a \<notin> answer_key ` set (answers s))"
proof (cases c)
  case (Start teacher now)
  then show ?thesis by (auto simp: keep_def start_def emit_def)
next
  case (Advance teacher now)
  then show ?thesis
    by (auto simp: keep_def advance_def emit_def finish_def split: option.splits)
next
  case (ForceClose teacher)
  then show ?thesis by (auto simp: keep_def forceClose_def emit_def)
next
  case (Expire now)
  then show ?thesis by (auto simp: expire_def emit_def)
next
  case (End teacher)
  then show ?thesis by (auto simp: keep_def end_session_def emit_def finish_def)
next
  case (Join student)
  then show ?thesis by (auto simp: joinSession_def Let_def split: option.splits)
next
  case (RecordViolation pid kind)
  then show ?thesis
    by (auto simp: keep_def recordViolation_def emit_def update_participant_def Let_def
          split: option.splits)
next
  case (Submit pid qid payload t)
  show ?thesis
  proof (cases "submit cfg s pid qid payload t")
    case (Inl e)
    then show ?thesis using Submit by (simp add: keep_def)
  next
    case (Inr r)
    obtain s' evs where r: "r = (s', evs)" by (cases r)
    from submit_Inr_answers [of cfg s pid qid payload t s' evs] Inr r
    show ?thesis using Submit by (auto simp: keep_def has_answer_key)
  qed
qed

lemma has_answer_step: "has_answer s pid qid \<Longrightarrow> has_answer (step cfg s c) pid qid"
  using answers_step [of cfg s c] by (auto simp: has_answer_key)

lemma has_answer_run: "has_answer s pid qid \<Longrightarrow> has_answer (run cfg s cs) pid qid"
  by (induction cs arbitrary: s) (auto simp: has_answer_step)

lemma answers_unique_step: "answers_unique s \<Longrightarrow> answers_unique (step cfg s c)"
  using answers_step [of cfg s c] by (auto simp: answers_unique_def)

lemma answers_unique_run: "answers_unique s \<Longrightarrow> answers_unique (run cfg s cs)"
  by (induction cs arbitrary: s) (auto simp: answers_unique_step)

lemma answers_unique_new: "answers_unique (new_session t k l qs)"
  by (simp add: answers_unique_def new_session_def)

lemma submit_after_answer:
  assumes "has_answer s pid qid"
  shows "submit cfg s pid qid payload t =
           (if status s = question_active
               \<and> map_option questionId (current_question s) = Some qid
            then if map_option removed (participant_of s pid) = Some False
                 then Inl Duplicate else Inl Forbidden
            else Inl InvalidState)"
  using assms by (auto simp: submit_def split: option.splits)

text \<open>
  Claim C5, as the modelled engine has it. After a successful \<open>submit\<close> for a (participant,
  question) pair, every further \<open>submit\<close> for the pair, in whatever state the session has
  reached since, is rejected and leaves the session unchanged, so no new Answer is created:
  with Duplicate while the session is still in question_active on that question and the
  participant is an unremoved member, with Forbidden if the participant has been removed
  since, and with InvalidState once the session has left the question. In every state
  reached from a new session the stored Answers have distinct (participant, question) pairs.
\<close>

theorem submit_at_most_once:
  "(submit cfg s pid qid payload t = Inr (s1, evs) \<longrightarrow>
      submit cfg (run cfg s1 cmds) pid qid payload' t' =
        (if status (run cfg s1 cmds) = question_active
            \<and> map_option questionId (current_question (run cfg s1 cmds)) = Some qid
         then if map_option removed (participant_of (run cfg s1 cmds) pid) = Some False
              then Inl Duplicate else Inl Forbidden
         else Inl InvalidState)
      \<and> step cfg (run cfg s1 cmds) (Submit pid qid payload' t') = run cfg s1 cmds)
   \<and> distinct (map answer_key (answers (run cfg (new_session teacher klas lst qs) cmds')))"
proof (intro conjI impI)
  assume ok: "submit cfg s pid qid payload t = Inr (s1, evs)"
  then have "has_answer s1 pid qid"
    using submit_Inr_answers [OF ok] by (auto simp: has_answer_key)
  then have later: "has_answer (run cfg s1 cmds) pid qid" by (rule has_answer_run)
  then show rej: "submit cfg (run cfg s1 cmds) pid qid payload' t' =
        (if status (run cfg s1 cmds) = question_active
            \<and> map_option questionId (current_question (run cfg s1 cmds)) = Some qid
         then if map_option removed (participant_of (run cfg s1 cmds) pid) = Some False
              then Inl Duplicate else Inl Forbidden
         else Inl InvalidState)"
    by (rule submit_after_answer)
  then show "step cfg (run cfg s1 cmds) (Submit pid qid payload' t') = run cfg s1 cmds"
    by (simp add: keep_def)
next
  show "distinct (map answer_key (answers (run cfg (new_session teacher klas lst qs) cmds')))"
    using answers_unique_run [OF answers_unique_new] by (simp add: answers_unique_def)
qed

text \<open>
  The claim as stated fails once the question is closed: the further submit for the same pair
  is rejected with InvalidState, not with Duplicate.
\<close>

theorem submit_after_close_counterexample:
  "submit config_session example_live 1 10 ''huis'' 5
     = Inr (example_answered, [(1, ev_answer_received 1 5)])
   \<and> example_closed = run config_session example_answered [ForceClose 1]
   \<and> submit config_session example_closed 1 10 ''huis'' 6 = Inl InvalidState"
  by code_simp

theorem submit_at_most_once_witness:
  "submit config_session example_live 1 10 ''huis'' 5
     = Inr (example_answered, [(1, ev_answer_received 1 5)])
   \<and> submit config_session (run config_session example_answered []) 1 10 ''hut'' 6 = Inl Duplicate
   \<and> submit config_session (run config_session example_answered [ForceClose 1]) 1 10 ''hut'' 6
       = Inl InvalidState
   \<and> step config_session (run config_session example_answered [ForceClose 1]) (Submit 1 10 ''hut'' 6)
       = run config_session example_answered [ForceClose 1]"
proof -
  have h: "submit config_session example_live 1 10 ''huis'' 5
     = Inr (example_answered, [(1, ev_answer_received 1 5)])"
    by code_simp
  have a: "status (run config_session example_answered []) = question_active
           \<and> map_option questionId (current_question (run config_session example_answered [])) = Some 10
           \<and> map_option removed (participant_of (run config_session example_answered []) 1) = Some False"
    by code_simp
  have b: "status (run config_session example_answered [ForceClose 1]) = question_closed"
    by code_simp
  show ?thesis
    using h a b
      submit_at_most_once [of config_session example_live 1 10 "''huis''" 5 example_answered
        "[(1, ev_answer_received 1 5)]" "[]" "''hut''" 6 1 5 6 example_questions "[]"]
      submit_at_most_once [of config_session example_live 1 10 "''huis''" 5 example_answered
        "[(1, ev_answer_received 1 5)]" "[ForceClose 1]" "''hut''" 6 1 5 6 example_questions "[]"]
    by (simp add: keep_def)
qed

section \<open>Expiry\<close>

text \<open>
  Claim C6. Outside question_active, and so after a \<open>forceClose\<close>, \<open>expire\<close> returns the
  session unchanged and emits no event. Once an \<open>expire\<close> has fired, any later \<open>expire\<close> is
  such a no-op, and applying \<open>expire\<close> twice at one instant gives the state of applying it
  once, with no event from the second call.
\<close>

theorem expire_noop:
  "(status s \<noteq> question_active \<longrightarrow> expire s now = (s, []))
   \<and> (forceClose s teacher = Inr (s', evs) \<longrightarrow> expire s' now = (s', []))
   \<and> (snd (expire s now) \<noteq> [] \<longrightarrow> expire (fst (expire s now)) now' = (fst (expire s now), []))
   \<and> fst (expire (fst (expire s now)) now) = fst (expire s now)
   \<and> snd (expire (fst (expire s now)) now) = []"
  by (auto simp: expire_def forceClose_def emit_def split: if_splits option.splits)

theorem expire_noop_witness:
  "status example_session \<noteq> question_active
   \<and> expire example_session 40000 = (example_session, [])
   \<and> forceClose example_live 1 = Inr (example_live\<lparr>status := question_closed, nextSeq := 2\<rparr>,
                                        [(1, ev_question_closed 0)])
   \<and> expire (example_live\<lparr>status := question_closed, nextSeq := 2\<rparr>) 40000
       = (example_live\<lparr>status := question_closed, nextSeq := 2\<rparr>, [])
   \<and> snd (expire example_live 30000) \<noteq> []
   \<and> expire (fst (expire example_live 30000)) 50000 = (fst (expire example_live 30000), [])"
proof -
  have h1: "status example_session \<noteq> question_active" by code_simp
  have h2: "forceClose example_live 1 = Inr (example_live\<lparr>status := question_closed, nextSeq := 2\<rparr>,
                                        [(1, ev_question_closed 0)])"
    by code_simp
  have h3: "snd (expire example_live 30000) \<noteq> []" by code_simp
  show ?thesis
    using h1 h2 h3
      expire_noop [of example_session 40000 1 example_session "[]" 0]
      expire_noop [of example_live 30000 1 "example_live\<lparr>status := question_closed, nextSeq := 2\<rparr>"
                      "[(1, ev_question_closed 0)]" 50000]
      expire_noop [of example_live 40000 1 "example_live\<lparr>status := question_closed, nextSeq := 2\<rparr>"
                      "[(1, ev_question_closed 0)]" 50000]
    by simp
qed

end
